theory Spec2Isabelle
  imports Complex_Main "HOL-Library.Signed_Division"
begin

section \<open>The bonding-curve pricing engine\<close>

text \<open>
  The engine is the TypeScript module of pure functions around \<^verbatim>\<open>CURVE_CONSTANTS\<close>:
  \<^verbatim>\<open>calculatePriceAtSupply\<close>, \<^verbatim>\<open>calculateBuyPrice\<close>, \<^verbatim>\<open>calculateSellPrice\<close>,
  \<^verbatim>\<open>calculateMarketCap\<close>, \<^verbatim>\<open>calculatePriceImpact\<close>, \<^verbatim>\<open>validateTrade\<close> and
  \<^verbatim>\<open>calculateOptimalTradeSize\<close>.

  \<^item> A \<^verbatim>\<open>BN\<close> (bn.js, arbitrary precision) is an \<^typ>\<open>int\<close>. \<^verbatim>\<open>add\<close>, \<^verbatim>\<open>sub\<close>, \<^verbatim>\<open>mul\<close>,
    \<^verbatim>\<open>abs\<close>, \<^verbatim>\<open>BN.max\<close> and the comparisons are the operations of \<^typ>\<open>int\<close>; \<^verbatim>\<open>div\<close>
    truncates towards zero (\<open>sdiv\<close>) and asserts a non-zero divisor.
  \<^item> A JavaScript number that holds an integer is an \<^typ>\<open>int\<close>; the conversions between
    the two worlds, \<^verbatim>\<open>new BN(number)\<close> and \<^verbatim>\<open>toNumber()\<close>, assert that the value is below
    \<open>2 ^ 53\<close> in size and throw otherwise.
  \<^item> A JavaScript number that holds a fraction (a percentage, \<^verbatim>\<open>pricePerToken\<close>) is a
    \<^typ>\<open>rat\<close>, its division taken exactly.
  \<^item> A thrown \<^verbatim>\<open>Error\<close> is the left summand of the result.
  \<^item> The one expression evaluated in double precision on values that are not integers,
    \<^verbatim>\<open>Math.floor(Math.pow(CURVE_CONSTANTS.PRICE_MULTIPLIER, supplyNumber) * 1000)\<close>, is the
    parameter \<open>fm\<close> of every function that reaches it (\<open>fm n\<close> is the value of the
    expression for \<^verbatim>\<open>supplyNumber = n\<close>; a result of \<open>2 ^ 53\<close> or more stands for every
    double that \<^verbatim>\<open>new BN\<close> refuses, \<^verbatim>\<open>Infinity\<close> among them). ECMAScript leaves the
    value of \<^verbatim>\<open>Math.pow\<close> to the implementation, so the theorems hold for every \<open>fm\<close>, or
    name the property of \<open>fm\<close> they need.
\<close>

subsection \<open>Big integers, numbers and thrown errors\<close>

datatype exn = Error string

definition new_BN :: "int \<Rightarrow> exn + int" where
  \<comment> \<open>\<^verbatim>\<open>new BN(number)\<close>: \<^verbatim>\<open>assert(number < 0x20000000000000)\<close> on the absolute value\<close>
  "new_BN number =
     (if \<bar>number\<bar> < 2 ^ 53 then Inr number else Inl (Error ''Assertion failed''))"

definition toNumber :: "int \<Rightarrow> exn + int" where
  \<comment> \<open>\<^verbatim>\<open>bn.toNumber()\<close>\<close>
  "toNumber bn =
     (if \<bar>bn\<bar> < 2 ^ 53 then Inr bn
      else Inl (Error ''Number can only safely store up to 53 bits''))"

definition BN_div :: "int \<Rightarrow> int \<Rightarrow> exn + int" where
  \<comment> \<open>\<^verbatim>\<open>a.div(b)\<close>: \<^verbatim>\<open>assert(!num.isZero())\<close>, then the quotient truncated towards zero\<close>
  "BN_div a b = (if b = 0 then Inl (Error ''Assertion failed'') else Inr (a sdiv b))"

subsection \<open>Constants\<close>

definition BASE_PRICE :: int where
  "BASE_PRICE = 1000000"

definition PRICE_MULTIPLIER :: rat where
  "PRICE_MULTIPLIER = 11 / 10"

definition MAX_SUPPLY :: int where
  "MAX_SUPPLY = 1000000"

definition FEE_PERCENTAGE :: rat where
  "FEE_PERCENTAGE = 25 / 1000"

definition MIN_PRICE :: int where
  "MIN_PRICE = 100000"

definition fee_factor :: int where
  \<comment> \<open>\<^verbatim>\<open>new BN(CURVE_CONSTANTS.FEE_PERCENTAGE * 10000)\<close>\<close>
  "fee_factor = \<lfloor>FEE_PERCENTAGE * 10000\<rfloor>"

definition exact_multiplier :: "int \<Rightarrow> int" where
  \<comment> \<open>An instance of the parameter \<open>fm\<close>: the expression
      \<^verbatim>\<open>Math.floor(Math.pow(PRICE_MULTIPLIER, n) * 1000)\<close> read in exact arithmetic. It is
      used to run the functions at concrete inputs, and gives what the doubles give
      wherever their rounding does not carry the product across an integer.\<close>
  "exact_multiplier n = \<lfloor>PRICE_MULTIPLIER ^ nat n * 1000\<rfloor>"

subsection \<open>Quotes\<close>

record PriceCalculation =
  price :: int
  totalCost :: int
  fee :: int
  netCost :: int
  pricePerToken :: rat
  marketCap :: int

definition calculatePriceAtSupply :: "(int \<Rightarrow> int) \<Rightarrow> int \<Rightarrow> int \<Rightarrow> exn + int" where
  "calculatePriceAtSupply fm supply basePrice =
     (if supply \<le> 0 then Inr basePrice
      else
        case toNumber supply of
          Inl e \<Rightarrow> Inl e
        | Inr supplyNumber \<Rightarrow>
            (case new_BN (fm supplyNumber) of
               Inl e \<Rightarrow> Inl e
             | Inr m \<Rightarrow> Inr (max ((basePrice * m) sdiv 1000) MIN_PRICE)))"

definition calculateMarketCap :: "(int \<Rightarrow> int) \<Rightarrow> int \<Rightarrow> int \<Rightarrow> exn + int" where
  "calculateMarketCap fm currentSupply basePrice =
     (if currentSupply \<le> 0 then Inr 0
      else
        case calculatePriceAtSupply fm currentSupply basePrice of
          Inl e \<Rightarrow> Inl e
        | Inr currentPrice \<Rightarrow> Inr (currentPrice * currentSupply))"

text \<open>
  The summation loop of \<^verbatim>\<open>calculateBuyPrice\<close>,
  \<^verbatim>\<open>for (let i = 0; i < amount.toNumber(); i++)\<close>, from the counter \<open>i\<close> on; \<open>n\<close> is
  \<^verbatim>\<open>amount.toNumber()\<close>. It returns \<^verbatim>\<open>totalCost\<close> and \<^verbatim>\<open>currentPrice\<close>.
\<close>

function buy_loop ::
  "(int \<Rightarrow> int) \<Rightarrow> int \<Rightarrow> int \<Rightarrow> int \<Rightarrow> int \<Rightarrow> int \<Rightarrow> int \<Rightarrow> exn + int \<times> int" where
  "buy_loop fm currentSupply basePrice n i cost currentPrice =
     (if i < n then
        (let tokenIndex = currentSupply + i in
         case calculatePriceAtSupply fm tokenIndex basePrice of
           Inl e \<Rightarrow> Inl e
         | Inr p \<Rightarrow> buy_loop fm currentSupply basePrice n (i + 1) (cost + p) p)
      else Inr (cost, currentPrice))"
  by pat_completeness auto
termination
  by (relation "measure (\<lambda>(fm, s, b, n, i, t, c). nat (n - i))") auto

declare buy_loop.simps [simp del]

definition calculateBuyPrice ::
  "(int \<Rightarrow> int) \<Rightarrow> int \<Rightarrow> int \<Rightarrow> int \<Rightarrow> exn + PriceCalculation" where
  "calculateBuyPrice fm currentSupply amount basePrice =
     (case toNumber amount of
        Inl e \<Rightarrow> Inl e
      | Inr n \<Rightarrow>
     (case buy_loop fm currentSupply basePrice n 0 0 0 of
        Inl e \<Rightarrow> Inl e
      | Inr (cost, currentPrice) \<Rightarrow>
          (let fee_amount = (cost * fee_factor) sdiv 10000;
               net = cost + fee_amount
           in case toNumber currentPrice of
                Inl e \<Rightarrow> Inl e
              | Inr priceNumber \<Rightarrow>
                  (case calculateMarketCap fm (currentSupply + amount) basePrice of
                     Inl e \<Rightarrow> Inl e
                   | Inr cap \<Rightarrow>
                       Inr \<lparr>price = currentPrice, totalCost = cost, fee = fee_amount,
                            netCost = net,
                            pricePerToken = of_int priceNumber / 10 ^ 9,
                            marketCap = cap\<rparr>))))"

text \<open>
  The loop of \<^verbatim>\<open>calculateSellPrice\<close>: the same counter, the token index counted down from
  \<^verbatim>\<open>currentSupply\<close>.
\<close>

function sell_loop ::
  "(int \<Rightarrow> int) \<Rightarrow> int \<Rightarrow> int \<Rightarrow> int \<Rightarrow> int \<Rightarrow> int \<Rightarrow> int \<Rightarrow> exn + int \<times> int" where
  "sell_loop fm currentSupply basePrice n i revenue currentPrice =
     (if i < n then
        (let tokenIndex = currentSupply - (i + 1) in
         case calculatePriceAtSupply fm tokenIndex basePrice of
           Inl e \<Rightarrow> Inl e
         | Inr p \<Rightarrow> sell_loop fm currentSupply basePrice n (i + 1) (revenue + p) p)
      else Inr (revenue, currentPrice))"
  by pat_completeness auto
termination
  by (relation "measure (\<lambda>(fm, s, b, n, i, t, c). nat (n - i))") auto

declare sell_loop.simps [simp del]

definition calculateSellPrice ::
  "(int \<Rightarrow> int) \<Rightarrow> int \<Rightarrow> int \<Rightarrow> int \<Rightarrow> exn + PriceCalculation" where
  "calculateSellPrice fm currentSupply amount basePrice =
     (if currentSupply < amount
      then Inl (Error ''Cannot sell more tokens than current supply'')
      else
     (case toNumber amount of
        Inl e \<Rightarrow> Inl e
      | Inr n \<Rightarrow>
     (case sell_loop fm currentSupply basePrice n 0 0 0 of
        Inl e \<Rightarrow> Inl e
      | Inr (revenue, currentPrice) \<Rightarrow>
          (let fee_amount = (revenue * fee_factor) sdiv 10000;
               netRevenue = revenue - fee_amount
           in case toNumber currentPrice of
                Inl e \<Rightarrow> Inl e
              | Inr priceNumber \<Rightarrow>
                  (case calculateMarketCap fm (currentSupply - amount) basePrice of
                     Inl e \<Rightarrow> Inl e
                   | Inr cap \<Rightarrow>
                       Inr \<lparr>price = currentPrice, totalCost = revenue, fee = fee_amount,
                            netCost = netRevenue,
                            pricePerToken = of_int priceNumber / 10 ^ 9,
                            marketCap = cap\<rparr>)))))"

subsection \<open>Price impact, validation and the optimal trade size\<close>

definition calculatePriceImpact ::
  "(int \<Rightarrow> int) \<Rightarrow> int \<Rightarrow> int \<Rightarrow> bool \<Rightarrow> int \<Rightarrow> exn + rat" where
  "calculatePriceImpact fm currentSupply tradeAmount isBuy basePrice =
     (case calculatePriceAtSupply fm currentSupply basePrice of
        Inl e \<Rightarrow> Inl e
      | Inr currentPrice \<Rightarrow>
     (case calculatePriceAtSupply fm
             (if isBuy then currentSupply + tradeAmount else currentSupply - tradeAmount)
             basePrice of
        Inl e \<Rightarrow> Inl e
      | Inr newPrice \<Rightarrow>
          (let priceDiff = \<bar>newPrice - currentPrice\<bar> in
           case BN_div (priceDiff * 10000) currentPrice of
             Inl e \<Rightarrow> Inl e
           | Inr q \<Rightarrow>
               (case toNumber q of
                  Inl e \<Rightarrow> Inl e
                | Inr k \<Rightarrow> Inr (min (of_int k / 100) 100)))))"

text \<open>
  The result of \<^verbatim>\<open>validateTrade\<close> is the object \<^verbatim>\<open>{ isValid, error? }\<close>. Its four messages are
  the constructors of \<open>trade_error\<close>; the last is the template
  \<^verbatim>\<open>Price impact (${priceImpact.toFixed(2)}%) exceeds maximum slippage (${maxSlippage}%)\<close>
  with its two numbers.
\<close>

datatype trade_error =
    Amount_must_be_greater_than_0
  | Exceeds_maximum_supply
  | Cannot_sell_more_than_current_supply
  | Price_impact_exceeds_maximum_slippage rat rat

record validation =
  isValid :: bool
  error :: "trade_error option"

definition validateTrade ::
  "(int \<Rightarrow> int) \<Rightarrow> int \<Rightarrow> int \<Rightarrow> bool \<Rightarrow> rat \<Rightarrow> exn + validation" where
  "validateTrade fm currentSupply amount isBuy maxSlippage =
     (if amount \<le> 0
      then Inr \<lparr>isValid = False, error = Some Amount_must_be_greater_than_0\<rparr>
      else if isBuy \<and> currentSupply + amount > MAX_SUPPLY
      then Inr \<lparr>isValid = False, error = Some Exceeds_maximum_supply\<rparr>
      else if \<not> isBuy \<and> amount > currentSupply
      then Inr \<lparr>isValid = False, error = Some Cannot_sell_more_than_current_supply\<rparr>
      else
        case calculatePriceImpact fm currentSupply amount isBuy BASE_PRICE of
          Inl e \<Rightarrow> Inl e
        | Inr priceImpact \<Rightarrow>
            if priceImpact > maxSlippage
            then Inr \<lparr>isValid = False,
                      error = Some (Price_impact_exceeds_maximum_slippage priceImpact maxSlippage)\<rparr>
            else Inr \<lparr>isValid = True, error = None\<rparr>)"

text \<open>
  The binary search of \<^verbatim>\<open>calculateOptimalTradeSize\<close>, \<^verbatim>\<open>while (low.lte(high))\<close>, from the
  state \<open>(low, high, optimal)\<close> on.
\<close>

function search ::
  "(int \<Rightarrow> int) \<Rightarrow> int \<Rightarrow> rat \<Rightarrow> bool \<Rightarrow> int \<Rightarrow> int \<Rightarrow> int \<Rightarrow> int \<Rightarrow> exn + int" where
  "search fm currentSupply maxPriceImpact isBuy basePrice low high optimal =
     (if low \<le> high then
        (let mid = (low + high) sdiv 2 in
         case calculatePriceImpact fm currentSupply mid isBuy basePrice of
           Inl e \<Rightarrow> Inl e
         | Inr impact \<Rightarrow>
             if impact \<le> maxPriceImpact
             then search fm currentSupply maxPriceImpact isBuy basePrice (mid + 1) high mid
             else search fm currentSupply maxPriceImpact isBuy basePrice low (mid - 1) optimal)
      else Inr optimal)"
  by pat_completeness auto
termination
proof (relation "measure (\<lambda>(fm, s, m, b, p, low, high, opt). nat (high - low + 1))")
  show "wf (measure (\<lambda>(fm, s, m, b, p, low, high, opt). nat (high - low + 1)))"
    by simp
next
  fix fm :: "int \<Rightarrow> int" and currentSupply basePrice low high optimal mid :: int
    and maxPriceImpact impact :: rat and isBuy :: bool
  assume "low \<le> high" and "mid = (low + high) sdiv 2"
  then have "low \<le> mid \<and> mid \<le> high"
    by (auto simp: signed_divide_int_def sgn_if abs_if)
  then show "((fm, currentSupply, maxPriceImpact, isBuy, basePrice, mid + 1, high, mid),
              (fm, currentSupply, maxPriceImpact, isBuy, basePrice, low, high, optimal))
             \<in> measure (\<lambda>(fm, s, m, b, p, low, high, opt). nat (high - low + 1))"
    and "((fm, currentSupply, maxPriceImpact, isBuy, basePrice, low, mid - 1, optimal),
              (fm, currentSupply, maxPriceImpact, isBuy, basePrice, low, high, optimal))
             \<in> measure (\<lambda>(fm, s, m, b, p, low, high, opt). nat (high - low + 1))"
    using \<open>low \<le> high\<close> by auto
qed

declare search.simps [simp del]

definition calculateOptimalTradeSize ::
  "(int \<Rightarrow> int) \<Rightarrow> int \<Rightarrow> rat \<Rightarrow> bool \<Rightarrow> int \<Rightarrow> exn + int" where
  "calculateOptimalTradeSize fm currentSupply maxPriceImpact isBuy basePrice =
     search fm currentSupply maxPriceImpact isBuy basePrice
       1 (if isBuy then MAX_SUPPLY - currentSupply else currentSupply) 1"

section \<open>Properties\<close>

subsection \<open>Conversions and constants\<close>

lemma toNumber_safe: "\<bar>x\<bar> < 2 ^ 53 \<Longrightarrow> toNumber x = Inr x"
  by (simp add: toNumber_def)

lemma toNumber_Inr: "toNumber x = Inr y \<Longrightarrow> y = x \<and> \<bar>x\<bar> < 2 ^ 53"
  by (simp add: toNumber_def split: if_splits)

lemma new_BN_safe: "\<bar>x\<bar> < 2 ^ 53 \<Longrightarrow> new_BN x = Inr x"
  by (simp add: new_BN_def)

lemma new_BN_Inr: "new_BN x = Inr y \<Longrightarrow> y = x \<and> \<bar>x\<bar> < 2 ^ 53"
  by (simp add: new_BN_def split: if_splits)

lemma fee_factor_250: "fee_factor = 250"
  by (simp add: fee_factor_def FEE_PERCENTAGE_def)

subsection \<open>The summation loops\<close>

lemma int_interval_first: "i < n \<Longrightarrow> {i..<n} = insert i {i + 1..<n}" for i n :: int
  by auto

lemma price_nonneg:
  "calculatePriceAtSupply fm s bp = Inr v \<Longrightarrow> 0 \<le> bp \<Longrightarrow> 0 \<le> v"
  by (auto simp: calculatePriceAtSupply_def MIN_PRICE_def split: if_splits sum.splits)

lemma buy_loop_Inr:
  "buy_loop fm s bp n i c p = Inr (c', p') \<Longrightarrow>
     (\<forall>k\<in>{i..<n}. \<exists>v. calculatePriceAtSupply fm (s + k) bp = Inr v)
     \<and> c' = c + (\<Sum>k\<in>{i..<n}. projr (calculatePriceAtSupply fm (s + k) bp))
     \<and> p' = (if i < n then projr (calculatePriceAtSupply fm (s + (n - 1)) bp) else p)"
proof (induction fm s bp n i c p rule: buy_loop.induct)
  case (1 fm s bp n i c p)
  show ?case
  proof (cases "i < n")
    case False
    with "1.prems" show ?thesis by (simp add: buy_loop.simps)
  next
    case True
    from "1.prems" True obtain v where
      v: "calculatePriceAtSupply fm (s + i) bp = Inr v"
      and rest: "buy_loop fm s bp n (i + 1) (c + v) v = Inr (c', p')"
      by (subst (asm) buy_loop.simps) (auto split: sum.splits)
    from "1.IH" [OF True refl v rest] have
      ih1: "\<forall>k\<in>{i + 1..<n}. \<exists>v. calculatePriceAtSupply fm (s + k) bp = Inr v"
      and ih2: "c' = c + v + (\<Sum>k\<in>{i + 1..<n}. projr (calculatePriceAtSupply fm (s + k) bp))"
      and ih3: "p' = (if i + 1 < n then projr (calculatePriceAtSupply fm (s + (n - 1)) bp) else v)"
      by simp_all
    have split: "{i..<n} = insert i {i + 1..<n}"
      using True by (rule int_interval_first)
    have a: "\<forall>k\<in>{i..<n}. \<exists>v. calculatePriceAtSupply fm (s + k) bp = Inr v"
      unfolding split using v ih1 by simp
    have b: "c' = c + (\<Sum>k\<in>{i..<n}. projr (calculatePriceAtSupply fm (s + k) bp))"
      unfolding split using v ih2 by simp
    have "p' = projr (calculatePriceAtSupply fm (s + (n - 1)) bp)"
    proof (cases "i + 1 < n")
      case True
      with ih3 show ?thesis by simp
    next
      case False
      with True have "n - 1 = i" by simp
      with ih3 False v show ?thesis by simp
    qed
    with a b True show ?thesis by simp
  qed
qed

lemma sell_loop_Inr:
  "sell_loop fm s bp n i c p = Inr (c', p') \<Longrightarrow>
     (\<forall>k\<in>{i..<n}. \<exists>v. calculatePriceAtSupply fm (s - (k + 1)) bp = Inr v)
     \<and> c' = c + (\<Sum>k\<in>{i..<n}. projr (calculatePriceAtSupply fm (s - (k + 1)) bp))"
proof (induction fm s bp n i c p rule: sell_loop.induct)
  case (1 fm s bp n i c p)
  show ?case
  proof (cases "i < n")
    case False
    with "1.prems" show ?thesis by (simp add: sell_loop.simps)
  next
    case True
    from "1.prems" True obtain v where
      v: "calculatePriceAtSupply fm (s - (i + 1)) bp = Inr v"
      and rest: "sell_loop fm s bp n (i + 1) (c + v) v = Inr (c', p')"
      by (subst (asm) sell_loop.simps) (auto split: sum.splits)
    from "1.IH" [OF True refl v rest] have
      ih1: "\<forall>k\<in>{i + 1..<n}. \<exists>v. calculatePriceAtSupply fm (s - (k + 1)) bp = Inr v"
      and ih2: "c' = c + v
                 + (\<Sum>k\<in>{i + 1..<n}. projr (calculatePriceAtSupply fm (s - (k + 1)) bp))"
      by simp_all
    have split: "{i..<n} = insert i {i + 1..<n}"
      using True by (rule int_interval_first)
    show ?thesis
      unfolding split using v ih1 ih2 by simp
  qed
qed

lemma buy_loop_returns:
  "\<forall>k\<in>{i..<n}. \<exists>v. calculatePriceAtSupply fm (s + k) bp = Inr v \<Longrightarrow>
     \<exists>c p. buy_loop fm s bp n i c0 p0 = Inr (c, p)"
proof (induction fm s bp n i c0 p0 rule: buy_loop.induct)
  case (1 fm s bp n i c0 p0)
  show ?case
  proof (cases "i < n")
    case False
    then show ?thesis by (simp add: buy_loop.simps)
  next
    case True
    with "1.prems" obtain v where v: "calculatePriceAtSupply fm (s + i) bp = Inr v"
      by fastforce
    from "1.prems" have "\<forall>k\<in>{i + 1..<n}. \<exists>v. calculatePriceAtSupply fm (s + k) bp = Inr v"
      by simp
    from "1.IH" [OF True refl v this] True v show ?thesis
      by (subst buy_loop.simps) simp
  qed
qed

lemma sell_loop_returns:
  "\<forall>k\<in>{i..<n}. \<exists>v. calculatePriceAtSupply fm (s - (k + 1)) bp = Inr v \<Longrightarrow>
     \<exists>c p. sell_loop fm s bp n i c0 p0 = Inr (c, p)"
proof (induction fm s bp n i c0 p0 rule: sell_loop.induct)
  case (1 fm s bp n i c0 p0)
  show ?case
  proof (cases "i < n")
    case False
    then show ?thesis by (simp add: sell_loop.simps)
  next
    case True
    with "1.prems" obtain v where v: "calculatePriceAtSupply fm (s - (i + 1)) bp = Inr v"
      by fastforce
    from "1.prems"
    have "\<forall>k\<in>{i + 1..<n}. \<exists>v. calculatePriceAtSupply fm (s - (k + 1)) bp = Inr v"
      by simp
    from "1.IH" [OF True refl v this] True v show ?thesis
      by (subst sell_loop.simps) simp
  qed
qed

lemma sell_loop_last:
  "sell_loop fm s bp n i c p = Inr (c', p') \<Longrightarrow>
     p' = (if i < n then projr (calculatePriceAtSupply fm (s - n) bp) else p)"
proof (induction fm s bp n i c p rule: sell_loop.induct)
  case (1 fm s bp n i c p)
  show ?case
  proof (cases "i < n")
    case False
    with "1.prems" show ?thesis by (simp add: sell_loop.simps)
  next
    case True
    from "1.prems" True obtain v where
      v: "calculatePriceAtSupply fm (s - (i + 1)) bp = Inr v"
      and rest: "sell_loop fm s bp n (i + 1) (c + v) v = Inr (c', p')"
      by (subst (asm) sell_loop.simps) (auto split: sum.splits)
    from "1.IH" [OF True refl v rest]
    have ih: "p' = (if i + 1 < n then projr (calculatePriceAtSupply fm (s - n) bp) else v)" .
    show ?thesis
    proof (cases "i + 1 < n")
      case True
      with ih \<open>i < n\<close> show ?thesis by simp
    next
      case False
      with \<open>i < n\<close> have "i + 1 = n" by simp
      with ih v \<open>i < n\<close> show ?thesis by simp
    qed
  qed
qed

lemma fee_is_floor:
  assumes "0 \<le> c"
  shows "(c * fee_factor) sdiv 10000 = \<lfloor>of_int c * FEE_PERCENTAGE\<rfloor>"
proof -
  have "(c * fee_factor) sdiv 10000 = (c * 250) div 10000"
    using assms by (simp add: fee_factor_250 signed_divide_int_def sgn_if)
  also have "\<dots> = \<lfloor>(of_int (c * 250) :: rat) / of_int 10000\<rfloor>"
    by (rule floor_divide_of_int_eq [symmetric])
  also have "(of_int (c * 250) :: rat) / of_int 10000 = of_int c * FEE_PERCENTAGE"
    by (simp add: FEE_PERCENTAGE_def)
  finally show ?thesis .
qed

lemma sum_prices_nonneg:
  assumes "0 \<le> bp" and "\<forall>k\<in>A. \<exists>v. calculatePriceAtSupply fm (g k) bp = Inr v"
  shows "0 \<le> (\<Sum>k\<in>A. projr (calculatePriceAtSupply fm (g k) bp))"
proof (rule sum_nonneg)
  fix k assume "k \<in> A"
  with assms(2) obtain v where "calculatePriceAtSupply fm (g k) bp = Inr v" by blast
  with assms(1) show "0 \<le> projr (calculatePriceAtSupply fm (g k) bp)"
    by (simp add: price_nonneg)
qed

lemma calculateBuyPrice_Inr:
  assumes "calculateBuyPrice fm s n bp = Inr q"
  obtains c p where "buy_loop fm s bp n 0 0 0 = Inr (c, p)"
    and "totalCost q = c" and "fee q = (c * fee_factor) sdiv 10000"
    and "netCost q = c + (c * fee_factor) sdiv 10000"
  using assms
  by (auto simp: calculateBuyPrice_def Let_def dest!: toNumber_Inr split: sum.splits prod.splits)

lemma calculateSellPrice_Inr:
  assumes "calculateSellPrice fm s n bp = Inr q"
  obtains c p where "sell_loop fm s bp n 0 0 0 = Inr (c, p)"
    and "totalCost q = c" and "fee q = (c * fee_factor) sdiv 10000"
    and "netCost q = c - (c * fee_factor) sdiv 10000" and "n \<le> s"
  using assms
  by (auto simp: calculateSellPrice_def Let_def dest!: toNumber_Inr
      split: sum.splits prod.splits if_splits)

text \<open>
  A quote is returned when the amount and all the prices it needs are safe integers.
\<close>

lemma calculateBuyPrice_returns:
  assumes "0 \<le> s" and "1 \<le> n" and "n < 2 ^ 53"
    and prices: "\<forall>k\<in>{s..s + n}. \<exists>v. calculatePriceAtSupply fm k basePrice = Inr v \<and> \<bar>v\<bar> < 2 ^ 53"
  shows "\<exists>q. calculateBuyPrice fm s n basePrice = Inr q"
proof -
  have n: "toNumber n = Inr n"
    using assms by (simp add: toNumber_def)
  have "\<forall>k\<in>{0..<n}. \<exists>v. calculatePriceAtSupply fm (s + k) basePrice = Inr v"
  proof
    fix k assume "k \<in> {0..<n}"
    then have "s + k \<in> {s..s + n}" by simp
    with prices show "\<exists>v. calculatePriceAtSupply fm (s + k) basePrice = Inr v" by blast
  qed
  then obtain c p where loop: "buy_loop fm s basePrice n 0 0 0 = Inr (c, p)"
    using buy_loop_returns by blast
  from buy_loop_Inr [OF loop] assms(2)
  have p: "p = projr (calculatePriceAtSupply fm (s + (n - 1)) basePrice)" by simp
  from assms(2) have "s + (n - 1) \<in> {s..s + n}" by simp
  with prices obtain v where "calculatePriceAtSupply fm (s + (n - 1)) basePrice = Inr v"
    and "\<bar>v\<bar> < 2 ^ 53" by blast
  with p have pn: "toNumber p = Inr p" by (simp add: toNumber_def)
  from assms(1,2) have "s + n \<in> {s..s + n}" by simp
  with prices obtain w where "calculatePriceAtSupply fm (s + n) basePrice = Inr w" by blast
  then have "\<exists>cap. calculateMarketCap fm (s + n) basePrice = Inr cap"
    by (simp add: calculateMarketCap_def)
  then obtain cap where "calculateMarketCap fm (s + n) basePrice = Inr cap" ..
  with n loop pn show ?thesis
    by (simp add: calculateBuyPrice_def Let_def)
qed

lemma calculateSellPrice_returns:
  assumes "0 < n" and "n \<le> s" and "n < 2 ^ 53"
    and prices: "\<forall>k\<in>{s - n..s}. \<exists>v. calculatePriceAtSupply fm k basePrice = Inr v \<and> \<bar>v\<bar> < 2 ^ 53"
  shows "\<exists>q. calculateSellPrice fm s n basePrice = Inr q"
proof -
  have n: "toNumber n = Inr n"
    using assms by (simp add: toNumber_def)
  have "\<forall>k\<in>{0..<n}. \<exists>v. calculatePriceAtSupply fm (s - (k + 1)) basePrice = Inr v"
  proof
    fix k assume "k \<in> {0..<n}"
    then have "s - (k + 1) \<in> {s - n..s}" by simp
    with prices show "\<exists>v. calculatePriceAtSupply fm (s - (k + 1)) basePrice = Inr v" by blast
  qed
  then obtain c p where loop: "sell_loop fm s basePrice n 0 0 0 = Inr (c, p)"
    using sell_loop_returns by blast
  from sell_loop_last [OF loop] assms(1)
  have p: "p = projr (calculatePriceAtSupply fm (s - n) basePrice)" by simp
  from assms(1) have "s - n \<in> {s - n..s}" by simp
  with prices obtain v where v: "calculatePriceAtSupply fm (s - n) basePrice = Inr v"
    and "\<bar>v\<bar> < 2 ^ 53" by blast
  with p have pn: "toNumber p = Inr p" by (simp add: toNumber_def)
  from v have "\<exists>cap. calculateMarketCap fm (s - n) basePrice = Inr cap"
    by (simp add: calculateMarketCap_def)
  then obtain cap where "calculateMarketCap fm (s - n) basePrice = Inr cap" ..
  with n loop pn assms(2) show ?thesis
    by (simp add: calculateSellPrice_def Let_def)
qed

subsection \<open>The multiplier in exact arithmetic\<close>

lemma exact_multiplier_int: "exact_multiplier n = (11 ^ nat n * 1000) div 10 ^ nat n"
proof -
  have "PRICE_MULTIPLIER ^ nat n * 1000
          = (of_int (11 ^ nat n * 1000) :: rat) / of_int (10 ^ nat n)"
    by (simp add: PRICE_MULTIPLIER_def power_divide)
  then show ?thesis
    unfolding exact_multiplier_def by (simp only: floor_divide_of_int_eq)
qed

lemma exact_multiplier_values:
  "exact_multiplier 1 = 1100" "exact_multiplier 2 = 1210" "exact_multiplier 3 = 1331"
  "exact_multiplier 4 = 1464" "exact_multiplier 5 = 1610"
  by (simp_all add: exact_multiplier_int)

lemma exact_multiplier_ge: "1000 \<le> exact_multiplier k"
proof -
  have "(1::rat) \<le> PRICE_MULTIPLIER ^ nat k"
    by (rule one_le_power) (simp add: PRICE_MULTIPLIER_def)
  then have "of_int 1000 \<le> PRICE_MULTIPLIER ^ nat k * 1000" by simp
  then show ?thesis
    unfolding exact_multiplier_def by (simp only: le_floor_iff)
qed

lemma exact_multiplier_mono: "j \<le> k \<Longrightarrow> exact_multiplier j \<le> exact_multiplier k"
proof -
  assume "j \<le> k"
  then have "nat j \<le> nat k" by simp
  then have "PRICE_MULTIPLIER ^ nat j \<le> PRICE_MULTIPLIER ^ nat k"
    by (rule power_increasing) (simp add: PRICE_MULTIPLIER_def)
  then have "PRICE_MULTIPLIER ^ nat j * 1000 \<le> PRICE_MULTIPLIER ^ nat k * 1000" by simp
  then show ?thesis
    unfolding exact_multiplier_def by (rule floor_mono)
qed

text \<open>
  From supply 352 on the exact multiplier is \<open>2 ^ 53\<close> or more (\<open>1.1 ^ 8 \<ge> 2\<close>), a
  number that \<^verbatim>\<open>new BN\<close> refuses; the doubles give such a number as well, \<^verbatim>\<open>Infinity\<close> from
  about supply 7400 on.
\<close>

lemma exact_multiplier_large:
  assumes "352 \<le> n"
  shows "2 ^ 53 \<le> exact_multiplier n"
proof -
  have "(2::rat) \<le> PRICE_MULTIPLIER ^ 8"
    by (simp add: PRICE_MULTIPLIER_def power_divide)
  then have "(2::rat) ^ 44 \<le> (PRICE_MULTIPLIER ^ 8) ^ 44"
    by (rule power_mono) simp
  also have "(PRICE_MULTIPLIER ^ 8) ^ 44 = PRICE_MULTIPLIER ^ 352"
    by (simp add: power_mult [symmetric])
  also have "PRICE_MULTIPLIER ^ 352 \<le> PRICE_MULTIPLIER ^ nat n"
    using assms by (intro power_increasing) (simp_all add: PRICE_MULTIPLIER_def)
  finally have "(2::rat) ^ 44 * 1000 \<le> PRICE_MULTIPLIER ^ nat n * 1000"
    by simp
  moreover have "(of_int (2 ^ 53) :: rat) \<le> 2 ^ 44 * 1000"
    by simp
  ultimately have "(of_int (2 ^ 53) :: rat) \<le> PRICE_MULTIPLIER ^ nat n * 1000"
    by (rule order_trans [rotated])
  then show ?thesis
    unfolding exact_multiplier_def by (simp only: le_floor_iff)
qed

lemma price_unsafe:
  assumes "352 \<le> s" and "s < 2 ^ 53"
  shows "calculatePriceAtSupply exact_multiplier s bp = Inl (Error ''Assertion failed'')"
proof -
  from assms(1) have "2 ^ 53 \<le> exact_multiplier s" by (rule exact_multiplier_large)
  then have "new_BN (exact_multiplier s) = Inl (Error ''Assertion failed'')"
    by (simp add: new_BN_def)
  with assms show ?thesis
    by (simp add: calculatePriceAtSupply_def toNumber_def)
qed

subsection \<open>Buy and sell quotes\<close>

lemma calculateBuyPrice_at_0_1:
  assumes "\<bar>fm 1\<bar> < 2 ^ 53"
  shows "\<exists>cap. calculateBuyPrice fm 0 1 1000000 =
    Inr \<lparr>price = 1000000, totalCost = 1000000, fee = 25000, netCost = 1025000,
         pricePerToken = 1 / 1000, marketCap = cap\<rparr>"
  using assms
  by (simp add: calculateBuyPrice_def toNumber_def buy_loop.simps calculatePriceAtSupply_def
      fee_factor_250 calculateMarketCap_def new_BN_def signed_divide_int_def)

text \<open>
  C1. A quote that \<^verbatim>\<open>calculateBuyPrice\<close> returns for a supply \<open>s \<ge> 0\<close>, an amount
  \<open>n \<ge> 1\<close> and a base price that is not negative has: every per-unit price
  \<open>price(s + i)\<close>, \<open>i = 0 .. n - 1\<close>, computed; \<^verbatim>\<open>totalCost\<close> their sum; \<^verbatim>\<open>fee\<close> the floor
  of \<^verbatim>\<open>totalCost\<close> times the fee rate; \<^verbatim>\<open>netCost\<close> the sum of both. The bound on
  \<open>s + n\<close> plays no part. A quote is returned when \<open>n\<close> and the prices at the supplies
  \<open>s .. s + n\<close> are computed and below \<open>2 ^ 53\<close>. The scenario: with base price 1_000_000,
  \<^verbatim>\<open>calculateBuyPrice(0, 1)\<close> returns a quote with \<^verbatim>\<open>totalCost\<close> 1_000_000, \<^verbatim>\<open>fee\<close> 25_000 and
  \<^verbatim>\<open>netCost\<close> 1_025_000, provided the multiplier at supply 1 (needed for the market cap of
  the quote) is a number that \<^verbatim>\<open>new BN\<close> accepts.
\<close>

theorem calculateBuyPrice_quote:
  "(calculateBuyPrice fm s n basePrice = Inr q \<and> 0 \<le> s \<and> 1 \<le> n \<and> 0 \<le> basePrice \<longrightarrow>
      (\<forall>i\<in>{0..<n}. \<exists>v. calculatePriceAtSupply fm (s + i) basePrice = Inr v)
      \<and> totalCost q = (\<Sum>i\<in>{0..<n}. projr (calculatePriceAtSupply fm (s + i) basePrice))
      \<and> fee q = \<lfloor>of_int (totalCost q) * FEE_PERCENTAGE\<rfloor>
      \<and> netCost q = totalCost q + fee q)
   \<and> (0 \<le> s \<and> 1 \<le> n \<and> n < 2 ^ 53
        \<and> (\<forall>k\<in>{s..s + n}. \<exists>v. calculatePriceAtSupply fm k basePrice = Inr v \<and> \<bar>v\<bar> < 2 ^ 53) \<longrightarrow>
      (\<exists>q0. calculateBuyPrice fm s n basePrice = Inr q0))
   \<and> (\<bar>fm 1\<bar> < 2 ^ 53 \<longrightarrow>
      (\<exists>q1. calculateBuyPrice fm 0 1 1000000 = Inr q1
         \<and> totalCost q1 = 1000000 \<and> fee q1 = 25000 \<and> netCost q1 = 1025000))"
proof (intro conjI)
  show "calculateBuyPrice fm s n basePrice = Inr q \<and> 0 \<le> s \<and> 1 \<le> n \<and> 0 \<le> basePrice \<longrightarrow>
      (\<forall>i\<in>{0..<n}. \<exists>v. calculatePriceAtSupply fm (s + i) basePrice = Inr v)
      \<and> totalCost q = (\<Sum>i\<in>{0..<n}. projr (calculatePriceAtSupply fm (s + i) basePrice))
      \<and> fee q = \<lfloor>of_int (totalCost q) * FEE_PERCENTAGE\<rfloor>
      \<and> netCost q = totalCost q + fee q"
  proof (rule impI)
    assume a: "calculateBuyPrice fm s n basePrice = Inr q \<and> 0 \<le> s \<and> 1 \<le> n \<and> 0 \<le> basePrice"
    then obtain c p where loop: "buy_loop fm s basePrice n 0 0 0 = Inr (c, p)"
      and q: "totalCost q = c" "fee q = (c * fee_factor) sdiv 10000"
        "netCost q = c + (c * fee_factor) sdiv 10000"
      by (blast elim: calculateBuyPrice_Inr)
    from buy_loop_Inr [OF loop] have
      all: "\<forall>i\<in>{0..<n}. \<exists>v. calculatePriceAtSupply fm (s + i) basePrice = Inr v"
      and c: "c = (\<Sum>i\<in>{0..<n}. projr (calculatePriceAtSupply fm (s + i) basePrice))"
      by simp_all
    from a all have "0 \<le> c"
      unfolding c by (intro sum_prices_nonneg) simp_all
    then have "(c * fee_factor) sdiv 10000 = \<lfloor>of_int c * FEE_PERCENTAGE\<rfloor>"
      by (rule fee_is_floor)
    with all c q show
      "(\<forall>i\<in>{0..<n}. \<exists>v. calculatePriceAtSupply fm (s + i) basePrice = Inr v)
        \<and> totalCost q = (\<Sum>i\<in>{0..<n}. projr (calculatePriceAtSupply fm (s + i) basePrice))
        \<and> fee q = \<lfloor>of_int (totalCost q) * FEE_PERCENTAGE\<rfloor>
        \<and> netCost q = totalCost q + fee q"
      by simp
  qed
next
  show "0 \<le> s \<and> 1 \<le> n \<and> n < 2 ^ 53
        \<and> (\<forall>k\<in>{s..s + n}. \<exists>v. calculatePriceAtSupply fm k basePrice = Inr v \<and> \<bar>v\<bar> < 2 ^ 53) \<longrightarrow>
      (\<exists>q0. calculateBuyPrice fm s n basePrice = Inr q0)"
    by (simp add: calculateBuyPrice_returns)
next
  show "\<bar>fm 1\<bar> < 2 ^ 53 \<longrightarrow>
      (\<exists>q1. calculateBuyPrice fm 0 1 1000000 = Inr q1
         \<and> totalCost q1 = 1000000 \<and> fee q1 = 25000 \<and> netCost q1 = 1025000)"
  proof (rule impI)
    assume "\<bar>fm 1\<bar> < 2 ^ 53"
    then obtain cap where "calculateBuyPrice fm 0 1 1000000 =
      Inr \<lparr>price = 1000000, totalCost = 1000000, fee = 25000, netCost = 1025000,
           pricePerToken = 1 / 1000, marketCap = cap\<rparr>"
      using calculateBuyPrice_at_0_1 [of fm] by blast
    then show "\<exists>q1. calculateBuyPrice fm 0 1 1000000 = Inr q1
           \<and> totalCost q1 = 1000000 \<and> fee q1 = 25000 \<and> netCost q1 = 1025000"
      by simp
  qed
qed

lemma buy_2_3:
  "calculateBuyPrice exact_multiplier 2 3 BASE_PRICE =
     Inr \<lparr>price = 1464000, totalCost = 4005000, fee = 100125, netCost = 4105125,
          pricePerToken = 183 / 125000, marketCap = 8050000\<rparr>"
  by (simp add: calculateBuyPrice_def toNumber_def buy_loop.simps calculatePriceAtSupply_def
      fee_factor_250 calculateMarketCap_def new_BN_def exact_multiplier_values
      MIN_PRICE_def BASE_PRICE_def signed_divide_int_def)

lemma prices_2_to_5:
  "calculatePriceAtSupply exact_multiplier 2 BASE_PRICE = Inr 1210000"
  "calculatePriceAtSupply exact_multiplier 3 BASE_PRICE = Inr 1331000"
  "calculatePriceAtSupply exact_multiplier 4 BASE_PRICE = Inr 1464000"
  "calculatePriceAtSupply exact_multiplier 5 BASE_PRICE = Inr 1610000"
  by (simp_all add: calculatePriceAtSupply_def toNumber_def new_BN_def
      exact_multiplier_values MIN_PRICE_def BASE_PRICE_def signed_divide_int_def)

lemma prices_2_to_5_safe:
  "\<forall>k\<in>{2..5}. \<exists>v. calculatePriceAtSupply exact_multiplier k BASE_PRICE = Inr v \<and> \<bar>v\<bar> < 2 ^ 53"
proof
  fix k :: int
  assume "k \<in> {2..5}"
  then have "k = 2 \<or> k = 3 \<or> k = 4 \<or> k = 5" by auto
  then show "\<exists>v. calculatePriceAtSupply exact_multiplier k BASE_PRICE = Inr v \<and> \<bar>v\<bar> < 2 ^ 53"
    by (auto simp: prices_2_to_5)
qed

text \<open>
  The hypotheses of C1 hold for a buy of 3 units at supply 2 (prices 1_210_000, 1_331_000
  and 1_464_000; the price at supply 5 is 1_610_000), and for the scenario, under the
  exact multiplier.
\<close>

theorem calculateBuyPrice_quote_witness:
  "calculateBuyPrice exact_multiplier 2 3 BASE_PRICE =
     Inr \<lparr>price = 1464000, totalCost = 4005000, fee = 100125, netCost = 4105125,
          pricePerToken = 183 / 125000, marketCap = 8050000\<rparr>
   \<and> (0::int) \<le> 2 \<and> (1::int) \<le> 3 \<and> (3::int) < 2 ^ 53 \<and> 0 \<le> BASE_PRICE
   \<and> \<bar>exact_multiplier 1\<bar> < 2 ^ 53
   \<and> calculatePriceAtSupply exact_multiplier 2 BASE_PRICE = Inr 1210000
   \<and> calculatePriceAtSupply exact_multiplier 3 BASE_PRICE = Inr 1331000
   \<and> calculatePriceAtSupply exact_multiplier 4 BASE_PRICE = Inr 1464000
   \<and> calculatePriceAtSupply exact_multiplier 5 BASE_PRICE = Inr 1610000
   \<and> (4005000::int)
       = (\<Sum>i\<in>{0..<3}. projr (calculatePriceAtSupply exact_multiplier (2 + i) BASE_PRICE))
   \<and> (100125::int) = \<lfloor>of_int 4005000 * FEE_PERCENTAGE\<rfloor>
   \<and> (\<exists>q0. calculateBuyPrice exact_multiplier 2 3 BASE_PRICE = Inr q0)
   \<and> (\<exists>q1. calculateBuyPrice exact_multiplier 0 1 1000000 = Inr q1
         \<and> totalCost q1 = 1000000 \<and> fee q1 = 25000 \<and> netCost q1 = 1025000)"
proof -
  have hyp: "0 \<le> BASE_PRICE" "\<bar>exact_multiplier 1\<bar> < 2 ^ 53"
    by (simp_all add: BASE_PRICE_def exact_multiplier_values)
  have safe: "\<forall>k\<in>{2..2 + 3}.
      \<exists>v. calculatePriceAtSupply exact_multiplier k BASE_PRICE = Inr v \<and> \<bar>v\<bar> < 2 ^ 53"
    using prices_2_to_5_safe by simp
  from calculateBuyPrice_quote [of exact_multiplier 2 3 BASE_PRICE
      "\<lparr>price = 1464000, totalCost = 4005000, fee = 100125, netCost = 4105125,
          pricePerToken = 183 / 125000, marketCap = 8050000\<rparr>"] buy_2_3 hyp safe
  show ?thesis by (simp add: prices_2_to_5)
qed

lemma calculateSellPrice_at_1_1:
  "calculateSellPrice fm 1 1 1000000 =
    Inr \<lparr>price = 1000000, totalCost = 1000000, fee = 25000, netCost = 975000,
         pricePerToken = 1 / 1000, marketCap = 0\<rparr>"
  by (simp add: calculateSellPrice_def toNumber_def sell_loop.simps calculatePriceAtSupply_def
      fee_factor_250 calculateMarketCap_def signed_divide_int_def)

lemma sum_shift_down:
  "(\<Sum>k\<in>{0..<n}. g (k + 1)) = (\<Sum>i\<in>{1..n}. g i)" for n :: int and g :: "int \<Rightarrow> int"
  by (rule sum.reindex_bij_witness [where i = "\<lambda>i. i - 1" and j = "\<lambda>k. k + 1"]) auto

text \<open>
  C2. A quote that \<^verbatim>\<open>calculateSellPrice\<close> returns for \<open>0 < n \<le> s\<close> and a base price that is
  not negative has: every per-unit price \<open>price(s - i)\<close>, \<open>i = 1 .. n\<close>, computed;
  \<^verbatim>\<open>totalCost\<close> their sum; \<^verbatim>\<open>fee\<close> the floor of \<^verbatim>\<open>totalCost\<close> times the fee rate;
  \<^verbatim>\<open>netCost\<close> the difference of both. A quote is returned when \<open>n\<close> and the prices at the
  supplies \<open>s - n .. s\<close> are computed and below \<open>2 ^ 53\<close>. The scenario: with base price
  1_000_000, \<^verbatim>\<open>calculateSellPrice(1, 1)\<close> returns a quote with \<^verbatim>\<open>totalCost\<close> 1_000_000,
  \<^verbatim>\<open>fee\<close> 25_000 and \<^verbatim>\<open>netCost\<close> 975_000, whatever the multiplier.
\<close>

theorem calculateSellPrice_quote:
  "(calculateSellPrice fm s n basePrice = Inr q \<and> 0 < n \<and> n \<le> s \<and> 0 \<le> basePrice \<longrightarrow>
      (\<forall>i\<in>{1..n}. \<exists>v. calculatePriceAtSupply fm (s - i) basePrice = Inr v)
      \<and> totalCost q = (\<Sum>i\<in>{1..n}. projr (calculatePriceAtSupply fm (s - i) basePrice))
      \<and> fee q = \<lfloor>of_int (totalCost q) * FEE_PERCENTAGE\<rfloor>
      \<and> netCost q = totalCost q - fee q)
   \<and> (0 < n \<and> n \<le> s \<and> n < 2 ^ 53
        \<and> (\<forall>k\<in>{s - n..s}. \<exists>v. calculatePriceAtSupply fm k basePrice = Inr v \<and> \<bar>v\<bar> < 2 ^ 53) \<longrightarrow>
      (\<exists>q0. calculateSellPrice fm s n basePrice = Inr q0))
   \<and> (\<exists>q1. calculateSellPrice fm 1 1 1000000 = Inr q1
         \<and> totalCost q1 = 1000000 \<and> fee q1 = 25000 \<and> netCost q1 = 975000)"
proof (intro conjI)
  show "calculateSellPrice fm s n basePrice = Inr q \<and> 0 < n \<and> n \<le> s \<and> 0 \<le> basePrice \<longrightarrow>
      (\<forall>i\<in>{1..n}. \<exists>v. calculatePriceAtSupply fm (s - i) basePrice = Inr v)
      \<and> totalCost q = (\<Sum>i\<in>{1..n}. projr (calculatePriceAtSupply fm (s - i) basePrice))
      \<and> fee q = \<lfloor>of_int (totalCost q) * FEE_PERCENTAGE\<rfloor>
      \<and> netCost q = totalCost q - fee q"
  proof (rule impI)
    assume a: "calculateSellPrice fm s n basePrice = Inr q \<and> 0 < n \<and> n \<le> s \<and> 0 \<le> basePrice"
    then obtain c p where loop: "sell_loop fm s basePrice n 0 0 0 = Inr (c, p)"
      and q: "totalCost q = c" "fee q = (c * fee_factor) sdiv 10000"
        "netCost q = c - (c * fee_factor) sdiv 10000"
      by (blast elim: calculateSellPrice_Inr)
    from sell_loop_Inr [OF loop] have
      all0: "\<forall>k\<in>{0..<n}. \<exists>v. calculatePriceAtSupply fm (s - (k + 1)) basePrice = Inr v"
      and c0: "c = (\<Sum>k\<in>{0..<n}. projr (calculatePriceAtSupply fm (s - (k + 1)) basePrice))"
      by simp_all
    have all: "\<forall>i\<in>{1..n}. \<exists>v. calculatePriceAtSupply fm (s - i) basePrice = Inr v"
    proof
      fix i assume "i \<in> {1..n}"
      then have "i - 1 \<in> {0..<n}" by simp
      with all0 have "\<exists>v. calculatePriceAtSupply fm (s - (i - 1 + 1)) basePrice = Inr v" ..
      then show "\<exists>v. calculatePriceAtSupply fm (s - i) basePrice = Inr v" by simp
    qed
    have c: "c = (\<Sum>i\<in>{1..n}. projr (calculatePriceAtSupply fm (s - i) basePrice))"
      unfolding c0
      by (rule sum_shift_down [of "\<lambda>i. projr (calculatePriceAtSupply fm (s - i) basePrice)"])
    from a all have "0 \<le> c"
      unfolding c by (intro sum_prices_nonneg) simp_all
    then have "(c * fee_factor) sdiv 10000 = \<lfloor>of_int c * FEE_PERCENTAGE\<rfloor>"
      by (rule fee_is_floor)
    with all c q show
      "(\<forall>i\<in>{1..n}. \<exists>v. calculatePriceAtSupply fm (s - i) basePrice = Inr v)
        \<and> totalCost q = (\<Sum>i\<in>{1..n}. projr (calculatePriceAtSupply fm (s - i) basePrice))
        \<and> fee q = \<lfloor>of_int (totalCost q) * FEE_PERCENTAGE\<rfloor>
        \<and> netCost q = totalCost q - fee q"
      by simp
  qed
next
  show "0 < n \<and> n \<le> s \<and> n < 2 ^ 53
        \<and> (\<forall>k\<in>{s - n..s}. \<exists>v. calculatePriceAtSupply fm k basePrice = Inr v \<and> \<bar>v\<bar> < 2 ^ 53) \<longrightarrow>
      (\<exists>q0. calculateSellPrice fm s n basePrice = Inr q0)"
    by (simp add: calculateSellPrice_returns)
next
  show "\<exists>q1. calculateSellPrice fm 1 1 1000000 = Inr q1
         \<and> totalCost q1 = 1000000 \<and> fee q1 = 25000 \<and> netCost q1 = 975000"
    by (simp add: calculateSellPrice_at_1_1)
qed

lemma sell_5_3:
  "calculateSellPrice exact_multiplier 5 3 BASE_PRICE =
     Inr \<lparr>price = 1210000, totalCost = 4005000, fee = 100125, netCost = 3904875,
          pricePerToken = 121 / 100000, marketCap = 2420000\<rparr>"
  by (simp add: calculateSellPrice_def toNumber_def sell_loop.simps calculatePriceAtSupply_def
      fee_factor_250 calculateMarketCap_def new_BN_def exact_multiplier_values
      MIN_PRICE_def BASE_PRICE_def signed_divide_int_def)

text \<open>
  The hypotheses of C2 hold for a sale of 3 units at supply 5, under the exact multiplier.
\<close>

theorem calculateSellPrice_quote_witness:
  "calculateSellPrice exact_multiplier 5 3 BASE_PRICE =
     Inr \<lparr>price = 1210000, totalCost = 4005000, fee = 100125, netCost = 3904875,
          pricePerToken = 121 / 100000, marketCap = 2420000\<rparr>
   \<and> (0::int) < 3 \<and> (3::int) \<le> 5 \<and> (3::int) < 2 ^ 53 \<and> 0 \<le> BASE_PRICE
   \<and> calculatePriceAtSupply exact_multiplier 2 BASE_PRICE = Inr 1210000
   \<and> calculatePriceAtSupply exact_multiplier 3 BASE_PRICE = Inr 1331000
   \<and> calculatePriceAtSupply exact_multiplier 4 BASE_PRICE = Inr 1464000
   \<and> calculatePriceAtSupply exact_multiplier 5 BASE_PRICE = Inr 1610000
   \<and> (4005000::int)
       = (\<Sum>i\<in>{1..3}. projr (calculatePriceAtSupply exact_multiplier (5 - i) BASE_PRICE))
   \<and> (100125::int) = \<lfloor>of_int 4005000 * FEE_PERCENTAGE\<rfloor>
   \<and> (\<exists>q0. calculateSellPrice exact_multiplier 5 3 BASE_PRICE = Inr q0)
   \<and> (\<exists>q1. calculateSellPrice exact_multiplier 1 1 1000000 = Inr q1
         \<and> totalCost q1 = 1000000 \<and> fee q1 = 25000 \<and> netCost q1 = 975000)"
proof -
  have hyp: "0 \<le> BASE_PRICE"
    by (simp add: BASE_PRICE_def)
  have safe: "\<forall>k\<in>{5 - 3..5}.
      \<exists>v. calculatePriceAtSupply exact_multiplier k BASE_PRICE = Inr v \<and> \<bar>v\<bar> < 2 ^ 53"
    using prices_2_to_5_safe by simp
  from calculateSellPrice_quote [of exact_multiplier 5 3 BASE_PRICE
      "\<lparr>price = 1210000, totalCost = 4005000, fee = 100125, netCost = 3904875,
          pricePerToken = 121 / 100000, marketCap = 2420000\<rparr>"] sell_5_3 hyp safe
  show ?thesis by (simp add: prices_2_to_5)
qed

lemma sum_reverse:
  "(\<Sum>k\<in>{0..<n}. g (s + k)) = (\<Sum>k\<in>{0..<n}. g (s + n - (k + 1)))"
  for n :: int and g :: "int \<Rightarrow> int"
  by (rule sum.reindex_bij_witness [where i = "\<lambda>k. n - 1 - k" and j = "\<lambda>k. n - 1 - k"])
    (auto simp: algebra_simps)

text \<open>
  C8. When a buy of \<open>n\<close> units at supply \<open>s\<close> and a sale of \<open>n\<close> units at supply
  \<open>s + n\<close> both return a quote, the two quotes have the same \<^verbatim>\<open>totalCost\<close>: the amount
  before the fee, which no fee rate enters, is the sum of the same per-unit prices. This
  holds under the fee rate of the code, so under a fee rate of 0 as well.
\<close>

theorem buy_sell_symmetry:
  assumes "calculateBuyPrice fm s n basePrice = Inr qb"
    and "calculateSellPrice fm (s + n) n basePrice = Inr qs"
  shows "totalCost qb = totalCost qs"
proof -
  from assms(1) obtain c p where "buy_loop fm s basePrice n 0 0 0 = Inr (c, p)"
    and b: "totalCost qb = c"
    by (blast elim: calculateBuyPrice_Inr)
  from buy_loop_Inr [OF this(1)]
  have c: "c = (\<Sum>k\<in>{0..<n}. projr (calculatePriceAtSupply fm (s + k) basePrice))"
    by simp
  from assms(2) obtain d r where "sell_loop fm (s + n) basePrice n 0 0 0 = Inr (d, r)"
    and s: "totalCost qs = d"
    by (blast elim: calculateSellPrice_Inr)
  from sell_loop_Inr [OF this(1)]
  have d: "d = (\<Sum>k\<in>{0..<n}. projr (calculatePriceAtSupply fm (s + n - (k + 1)) basePrice))"
    by simp
  show ?thesis
    unfolding b s c d
    by (rule sum_reverse [of "\<lambda>i. projr (calculatePriceAtSupply fm i basePrice)"])
qed

text \<open>
  Both quotes of C8 exist for \<open>s = 2\<close>, \<open>n = 3\<close> under the exact multiplier.
\<close>

theorem buy_sell_symmetry_witness:
  "calculateBuyPrice exact_multiplier 2 3 BASE_PRICE =
     Inr \<lparr>price = 1464000, totalCost = 4005000, fee = 100125, netCost = 4105125,
          pricePerToken = 183 / 125000, marketCap = 8050000\<rparr>
   \<and> calculateSellPrice exact_multiplier (2 + 3) 3 BASE_PRICE =
     Inr \<lparr>price = 1210000, totalCost = 4005000, fee = 100125, netCost = 3904875,
          pricePerToken = 121 / 100000, marketCap = 2420000\<rparr>
   \<and> totalCost \<lparr>price = 1464000, totalCost = 4005000, fee = 100125, netCost = 4105125,
          pricePerToken = 183 / 125000, marketCap = 8050000\<rparr>
     = totalCost \<lparr>price = 1210000, totalCost = 4005000, fee = 100125, netCost = 3904875,
          pricePerToken = 121 / 100000, marketCap = 2420000\<rparr>"
proof -
  have s: "calculateSellPrice exact_multiplier (2 + 3) 3 BASE_PRICE =
     Inr \<lparr>price = 1210000, totalCost = 4005000, fee = 100125, netCost = 3904875,
          pricePerToken = 121 / 100000, marketCap = 2420000\<rparr>"
    using sell_5_3 by simp
  from buy_sell_symmetry [OF buy_2_3 s] buy_2_3 s show ?thesis by blast
qed

subsection \<open>The price at a supply\<close>

lemma calculatePriceAtSupply_low: "s \<le> 0 \<Longrightarrow> calculatePriceAtSupply fm s bp = Inr bp"
  by (simp add: calculatePriceAtSupply_def)

lemma calculatePriceAtSupply_high:
  assumes "0 < s" and "calculatePriceAtSupply fm s bp = Inr p"
  shows "p = max ((bp * fm s) sdiv 1000) MIN_PRICE"
    and "s < 2 ^ 53" and "\<bar>fm s\<bar> < 2 ^ 53"
  using assms
  by (auto simp: calculatePriceAtSupply_def dest!: toNumber_Inr new_BN_Inr
      split: if_splits sum.splits)

lemma calculatePriceAtSupply_safe:
  assumes "0 < s" and "s < 2 ^ 53" and "\<bar>fm s\<bar> < 2 ^ 53"
  shows "calculatePriceAtSupply fm s bp = Inr (max ((bp * fm s) sdiv 1000) MIN_PRICE)"
  using assms by (simp add: calculatePriceAtSupply_def toNumber_def new_BN_def)

text \<open>
  C4 as stated fails twice. At supply 0 the function returns the base price as it is: a
  base price of 50_000 gives the price 50_000, below \<^verbatim>\<open>MIN_PRICE\<close>. And the multiplier is
  cut to three decimals before it is applied: at supply 4 and base price 1_000_000 the
  price is 1_464_000, where \<open>max(minPrice, floor(basePrice * 1.1 ^ 4))\<close> is 1_464_100.
\<close>

theorem price_floor_counterexample:
  "calculatePriceAtSupply exact_multiplier 0 50000 = Inr 50000
   \<and> (50000::int) < MIN_PRICE
   \<and> calculatePriceAtSupply exact_multiplier 4 1000000 = Inr 1464000
   \<and> max MIN_PRICE \<lfloor>1000000 * PRICE_MULTIPLIER ^ 4\<rfloor> = 1464100"
  by (simp add: calculatePriceAtSupply_def toNumber_def new_BN_def exact_multiplier_values
      MIN_PRICE_def PRICE_MULTIPLIER_def power_divide signed_divide_int_def)

text \<open>
  C4, amended. For a supply \<open>s \<ge> 1\<close> and any base price, a price that is returned is
  \<open>max(trunc(basePrice * fm s / 1000), MIN_PRICE)\<close>, with \<open>fm s\<close> the floor of
  \<open>1.1 ^ s * 1000\<close> as the doubles give it, and so at least \<^verbatim>\<open>MIN_PRICE\<close> = 100_000. For a
  base price of at least \<^verbatim>\<open>MIN_PRICE\<close>, a price that is returned is at least \<^verbatim>\<open>MIN_PRICE\<close>
  at every supply. A price is returned for \<open>s \<ge> 1\<close> whenever \<open>s\<close> and \<open>fm s\<close> are below
  \<open>2 ^ 53\<close> in size.
\<close>

theorem calculatePriceAtSupply_floor:
  "(0 < s \<and> calculatePriceAtSupply fm s basePrice = Inr p \<longrightarrow>
      p = max ((basePrice * fm s) sdiv 1000) MIN_PRICE \<and> MIN_PRICE \<le> p)
   \<and> (MIN_PRICE \<le> basePrice \<and> calculatePriceAtSupply fm s basePrice = Inr p \<longrightarrow>
      MIN_PRICE \<le> p)
   \<and> (0 < s \<and> s < 2 ^ 53 \<and> \<bar>fm s\<bar> < 2 ^ 53 \<longrightarrow>
      (\<exists>v. calculatePriceAtSupply fm s basePrice = Inr v))
   \<and> MIN_PRICE = 100000"
proof (intro conjI impI)
  assume a: "0 < s \<and> calculatePriceAtSupply fm s basePrice = Inr p"
  then show "p = max ((basePrice * fm s) sdiv 1000) MIN_PRICE"
    by (simp add: calculatePriceAtSupply_high(1))
  then show "MIN_PRICE \<le> p" by simp
next
  assume a: "MIN_PRICE \<le> basePrice \<and> calculatePriceAtSupply fm s basePrice = Inr p"
  show "MIN_PRICE \<le> p"
  proof (cases "0 < s")
    case True
    with a have "p = max ((basePrice * fm s) sdiv 1000) MIN_PRICE"
      by (simp add: calculatePriceAtSupply_high(1))
    then show ?thesis by simp
  next
    case False
    with a show ?thesis by (simp add: calculatePriceAtSupply_low)
  qed
next
  assume "0 < s \<and> s < 2 ^ 53 \<and> \<bar>fm s\<bar> < 2 ^ 53"
  then show "\<exists>v. calculatePriceAtSupply fm s basePrice = Inr v"
    by (simp add: calculatePriceAtSupply_safe)
next
  show "MIN_PRICE = 100000" by (simp add: MIN_PRICE_def)
qed

text \<open>
  The hypotheses of the amended C4 hold at supply 4 with base price 50_000 (the floor
  applies: 100_000) and at supply 0 with base price 1_000_000.
\<close>

theorem calculatePriceAtSupply_floor_witness:
  "(0::int) < 4 \<and> (4::int) < 2 ^ 53 \<and> \<bar>exact_multiplier 4\<bar> < 2 ^ 53
   \<and> calculatePriceAtSupply exact_multiplier 4 50000 = Inr 100000
   \<and> (100000::int) = max ((50000 * exact_multiplier 4) sdiv 1000) MIN_PRICE
   \<and> MIN_PRICE \<le> 100000
   \<and> MIN_PRICE \<le> 1000000 \<and> calculatePriceAtSupply exact_multiplier 0 1000000 = Inr 1000000"
proof -
  have h: "calculatePriceAtSupply exact_multiplier 4 50000 = Inr 100000"
    "calculatePriceAtSupply exact_multiplier 0 1000000 = Inr 1000000"
    "\<bar>exact_multiplier 4\<bar> < 2 ^ 53" "MIN_PRICE \<le> 1000000"
    by (simp_all add: calculatePriceAtSupply_def toNumber_def new_BN_def
        exact_multiplier_values MIN_PRICE_def signed_divide_int_def)
  from calculatePriceAtSupply_floor [of 4 exact_multiplier 50000 100000]
    calculatePriceAtSupply_floor [of 0 exact_multiplier 1000000 1000000] h
  show ?thesis by simp
qed

text \<open>Truncating division by 1000 is monotone.\<close>

lemma sdiv_1000_eq:
  "a sdiv 1000 = (if 0 \<le> a then a div 1000 else - ((- a) div 1000))" for a :: int
  by (simp add: signed_divide_int_def sgn_if)

lemma sdiv_1000_mono:
  fixes a b :: int
  assumes "a \<le> b"
  shows "a sdiv 1000 \<le> b sdiv 1000"
proof -
  consider "0 \<le> a" | "a < 0" "0 \<le> b" | "b < 0" using assms by linarith
  then show ?thesis
  proof cases
    case 1
    with assms have "0 \<le> b" by simp
    moreover from assms have "a div 1000 \<le> b div 1000" by (rule zdiv_mono1) simp
    ultimately show ?thesis using 1 by (simp add: sdiv_1000_eq)
  next
    case 2
    then have "0 \<le> (- a) div 1000" and "0 \<le> b div 1000"
      by (simp_all add: pos_imp_zdiv_nonneg_iff)
    with 2 show ?thesis by (simp add: sdiv_1000_eq)
  next
    case 3
    with assms have "a < 0" by simp
    moreover from assms have "(- b) div 1000 \<le> (- a) div 1000"
      by (intro zdiv_mono1) simp_all
    ultimately show ?thesis using 3 by (simp add: sdiv_1000_eq)
  qed
qed

lemma sdiv_1000_nonpos: "a \<le> 0 \<Longrightarrow> a sdiv 1000 \<le> 0" for a :: int
  using sdiv_1000_mono [of a 0] by (simp add: sdiv_1000_eq)

lemma sdiv_1000_scale: "0 \<le> b \<Longrightarrow> 1000 \<le> m \<Longrightarrow> b \<le> (b * m) sdiv 1000" for b m :: int
proof -
  assume b: "0 \<le> b" and m: "1000 \<le> m"
  then have "b * 1000 \<le> b * m" by (simp add: mult_left_mono)
  then have "(b * 1000) sdiv 1000 \<le> (b * m) sdiv 1000" by (rule sdiv_1000_mono)
  moreover have "(b * 1000) sdiv 1000 = b" using b by (simp add: sdiv_1000_eq)
  ultimately show ?thesis by simp
qed

text \<open>
  The price does not fall as the supply grows, from any supply to any larger one.
\<close>

lemma fm_mono_le:
  fixes fm :: "int \<Rightarrow> int"
  assumes mono: "\<And>k. 0 < k \<Longrightarrow> fm k \<le> fm (k + 1)"
    and "0 < j" and "j \<le> k"
  shows "fm j \<le> fm k"
  using \<open>j \<le> k\<close>
proof (induction k rule: int_ge_induct)
  case base
  show ?case by simp
next
  case (step i)
  from step.hyps \<open>0 < j\<close> have "0 < i" by simp
  from mono [OF this] step.IH show ?case by simp
qed

lemma price_le:
  assumes ge: "\<And>k. 0 < k \<Longrightarrow> 1000 \<le> fm k"
    and mono: "\<And>k. 0 < k \<Longrightarrow> fm k \<le> fm (k + 1)"
    and jk: "j \<le> k"
    and p: "calculatePriceAtSupply fm j basePrice = Inr p"
    and p': "calculatePriceAtSupply fm k basePrice = Inr p'"
  shows "p \<le> p'"
proof -
  consider "k \<le> 0" | "j \<le> 0" "0 < k" | "0 < j" using jk by linarith
  then show ?thesis
  proof cases
    case 1
    with jk p p' show ?thesis by (simp add: calculatePriceAtSupply_low)
  next
    case 2
    with p have p0: "p = basePrice" by (simp add: calculatePriceAtSupply_low)
    from 2 p' have p1: "p' = max ((basePrice * fm k) sdiv 1000) MIN_PRICE"
      by (simp add: calculatePriceAtSupply_high(1))
    show ?thesis
    proof (cases "0 \<le> basePrice")
      case True
      then have "basePrice \<le> (basePrice * fm k) sdiv 1000"
        using ge [OF 2(2)] by (simp add: sdiv_1000_scale)
      with p0 p1 show ?thesis by simp
    next
      case False
      with p0 p1 show ?thesis by (simp add: MIN_PRICE_def)
    qed
  next
    case 3
    with jk have k: "0 < k" by simp
    from 3 p have ps: "p = max ((basePrice * fm j) sdiv 1000) MIN_PRICE"
      by (rule calculatePriceAtSupply_high(1))
    from k p' have ps': "p' = max ((basePrice * fm k) sdiv 1000) MIN_PRICE"
      by (rule calculatePriceAtSupply_high(1))
    show ?thesis
    proof (cases "0 \<le> basePrice")
      case True
      from mono 3 jk have "fm j \<le> fm k" by (rule fm_mono_le)
      with True have "basePrice * fm j \<le> basePrice * fm k"
        by (simp add: mult_left_mono)
      then have "(basePrice * fm j) sdiv 1000 \<le> (basePrice * fm k) sdiv 1000"
        by (rule sdiv_1000_mono)
      with ps ps' show ?thesis by auto
    next
      case False
      moreover from ge [OF 3] have "0 \<le> fm j" by simp
      ultimately have "basePrice * fm j \<le> 0"
        by (simp add: mult_le_0_iff)
      then have "(basePrice * fm j) sdiv 1000 \<le> 0" by (rule sdiv_1000_nonpos)
      with ps ps' show ?thesis by (simp add: MIN_PRICE_def)
    qed
  qed
qed

text \<open>
  C5. Let the floored multiplier \<open>fm\<close> be at least 1000 and non-decreasing on the
  positive supplies (as \<open>1.1 ^ k \<ge> 1\<close> grows with \<open>k\<close>). Then for every supply \<open>s\<close> and
  every base price, when the prices at \<open>s\<close> and at \<open>s + 1\<close> are both returned, the first
  is at most the second; and both are returned for every supply \<open>s \<ge> 0\<close> at which the
  multipliers are safe integers.
\<close>

theorem price_monotone:
  assumes ge: "\<And>k. 0 < k \<Longrightarrow> 1000 \<le> fm k"
    and mono: "\<And>k. 0 < k \<Longrightarrow> fm k \<le> fm (k + 1)"
  shows "(calculatePriceAtSupply fm s basePrice = Inr p
          \<and> calculatePriceAtSupply fm (s + 1) basePrice = Inr p' \<longrightarrow> p \<le> p')
     \<and> (0 \<le> s \<and> s + 1 < 2 ^ 53 \<and> (s = 0 \<or> \<bar>fm s\<bar> < 2 ^ 53) \<and> \<bar>fm (s + 1)\<bar> < 2 ^ 53 \<longrightarrow>
          (\<exists>v v'. calculatePriceAtSupply fm s basePrice = Inr v
             \<and> calculatePriceAtSupply fm (s + 1) basePrice = Inr v' \<and> v \<le> v'))"
proof (intro conjI impI)
  assume "calculatePriceAtSupply fm s basePrice = Inr p
          \<and> calculatePriceAtSupply fm (s + 1) basePrice = Inr p'"
  then have p: "calculatePriceAtSupply fm s basePrice = Inr p"
    and p': "calculatePriceAtSupply fm (s + 1) basePrice = Inr p'" by simp_all
  have "s \<le> s + 1" by simp
  with ge mono show "p \<le> p'" using p p' by (rule price_le)
next
  assume a: "0 \<le> s \<and> s + 1 < 2 ^ 53 \<and> (s = 0 \<or> \<bar>fm s\<bar> < 2 ^ 53) \<and> \<bar>fm (s + 1)\<bar> < 2 ^ 53"
  have "\<exists>v. calculatePriceAtSupply fm s basePrice = Inr v"
  proof (cases "s = 0")
    case True
    then show ?thesis by (simp add: calculatePriceAtSupply_low)
  next
    case False
    with a show ?thesis by (simp add: calculatePriceAtSupply_safe)
  qed
  then obtain v where v: "calculatePriceAtSupply fm s basePrice = Inr v" ..
  from a obtain v' where v': "calculatePriceAtSupply fm (s + 1) basePrice = Inr v'"
    by (simp add: calculatePriceAtSupply_safe)
  have "s \<le> s + 1" by simp
  with ge mono have "v \<le> v'" using v v' by (rule price_le)
  with v v' show "\<exists>v v'. calculatePriceAtSupply fm s basePrice = Inr v
             \<and> calculatePriceAtSupply fm (s + 1) basePrice = Inr v' \<and> v \<le> v'"
    by blast
qed

text \<open>
  The exact multiplier is at least 1000 and non-decreasing, its values at 3 and 4 are
  safe integers, and the prices at supplies 3 and 4 are 1_331_000 and 1_464_000.
\<close>

theorem price_monotone_witness:
  "(\<forall>k. 1000 \<le> exact_multiplier k) \<and> (\<forall>k. exact_multiplier k \<le> exact_multiplier (k + 1))
   \<and> (0::int) \<le> 3 \<and> (3::int) + 1 < 2 ^ 53
   \<and> \<bar>exact_multiplier 3\<bar> < 2 ^ 53 \<and> \<bar>exact_multiplier (3 + 1)\<bar> < 2 ^ 53
   \<and> calculatePriceAtSupply exact_multiplier 3 BASE_PRICE = Inr 1331000
   \<and> calculatePriceAtSupply exact_multiplier (3 + 1) BASE_PRICE = Inr 1464000
   \<and> (1331000::int) \<le> 1464000"
proof -
  have ge: "1000 \<le> exact_multiplier k" for k
    by (rule exact_multiplier_ge)
  have mono: "exact_multiplier k \<le> exact_multiplier (k + 1)" for k
    by (rule exact_multiplier_mono) simp
  have a: "calculatePriceAtSupply exact_multiplier 3 BASE_PRICE = Inr 1331000"
    and b: "calculatePriceAtSupply exact_multiplier (3 + 1) BASE_PRICE = Inr 1464000"
    using prices_2_to_5 by simp_all
  have safe: "\<bar>exact_multiplier 3\<bar> < 2 ^ 53" "\<bar>exact_multiplier (3 + 1)\<bar> < 2 ^ 53"
    by (simp_all add: exact_multiplier_values)
  from price_monotone [of exact_multiplier 3 BASE_PRICE 1331000 1464000, OF ge mono] a b
  have "(1331000::int) \<le> 1464000" by blast
  with a b safe ge mono show ?thesis by simp
qed

subsection \<open>Failure conditions\<close>

lemma buy_loop_none: "n \<le> 0 \<Longrightarrow> buy_loop fm s bp n 0 0 0 = Inr (0, 0)"
  by (simp add: buy_loop.simps)

text \<open>
  C3 as stated fails: \<^verbatim>\<open>calculateBuyPrice\<close> checks neither the amount nor the supply cap.
  For the amount 0 it returns a quote, all of whose amounts are 0, and no error. For a
  buy of 1 unit at \<^verbatim>\<open>MAX_SUPPLY\<close> it throws the failed assertion of \<^verbatim>\<open>new BN\<close> on the
  multiplier, as it does for a buy of 1 unit two units below \<^verbatim>\<open>MAX_SUPPLY\<close>, which exceeds
  nothing.
\<close>

theorem calculateBuyPrice_unchecked_counterexample:
  "calculateBuyPrice exact_multiplier 0 0 BASE_PRICE =
     Inr \<lparr>price = 0, totalCost = 0, fee = 0, netCost = 0, pricePerToken = 0, marketCap = 0\<rparr>
   \<and> calculateBuyPrice exact_multiplier MAX_SUPPLY 1 BASE_PRICE
       = Inl (Error ''Assertion failed'')
   \<and> calculateBuyPrice exact_multiplier (MAX_SUPPLY - 2) 1 BASE_PRICE
       = Inl (Error ''Assertion failed'')"
proof -
  have "calculatePriceAtSupply exact_multiplier 1000000 BASE_PRICE
          = Inl (Error ''Assertion failed'')"
    and "calculatePriceAtSupply exact_multiplier 999998 BASE_PRICE
          = Inl (Error ''Assertion failed'')"
    by (rule price_unsafe; simp)+
  then show ?thesis
    by (simp add: calculateBuyPrice_def toNumber_def buy_loop.simps calculateMarketCap_def
        signed_divide_int_def MAX_SUPPLY_def)
qed

lemma calculateMarketCap_fails:
  assumes "0 < k" and "\<not> (k < 2 ^ 53 \<and> \<bar>fm k\<bar> < 2 ^ 53)"
  shows "\<exists>e. calculateMarketCap fm k bp = Inl e"
  using assms
  by (auto simp: calculateMarketCap_def calculatePriceAtSupply_def toNumber_def new_BN_def)

lemma calculateBuyPrice_no_units:
  assumes "- (2 ^ 53) < n" and "n \<le> 0"
  shows "calculateBuyPrice fm s n basePrice =
        (case calculateMarketCap fm (s + n) basePrice of
           Inl e \<Rightarrow> Inl e
         | Inr cap \<Rightarrow>
             Inr \<lparr>price = 0, totalCost = 0, fee = 0, netCost = 0, pricePerToken = 0,
                  marketCap = cap\<rparr>)"
  using assms
  by (simp add: calculateBuyPrice_def toNumber_def buy_loop_none signed_divide_int_def
      split: sum.splits)

text \<open>
  C3, amended. \<^verbatim>\<open>calculateBuyPrice\<close> checks neither the amount nor the supply cap. For an
  amount \<open>n \<le> 0\<close> (above \<open>- 2 ^ 53\<close>) its loop does not run, and its result is decided
  by the market cap at supply \<open>s + n\<close> alone. When \<open>s + n \<le> 0\<close>, or when \<open>s + n\<close> and the
  multiplier at \<open>s + n\<close> are below \<open>2 ^ 53\<close> in size, it returns the quote with \<^verbatim>\<open>price\<close>,
  \<^verbatim>\<open>totalCost\<close>, \<^verbatim>\<open>fee\<close> and \<^verbatim>\<open>netCost\<close> 0 and that market cap, and no error; otherwise it
  throws the arithmetic failure of the market cap. The checks are those of
  \<^verbatim>\<open>validateTrade\<close>: for a buy it returns the result value with the message
  \<^verbatim>\<open>Amount must be greater than 0\<close> whenever \<open>n \<le> 0\<close>, and with \<^verbatim>\<open>Exceeds maximum supply\<close>
  whenever \<open>n > 0\<close> and \<open>s + n > MAX_SUPPLY\<close>.
\<close>

theorem calculateBuyPrice_unchecked:
  "(- (2 ^ 53) < n \<and> n \<le> 0 \<longrightarrow>
      calculateBuyPrice fm s n basePrice =
        (case calculateMarketCap fm (s + n) basePrice of
           Inl e \<Rightarrow> Inl e
         | Inr cap \<Rightarrow>
             Inr \<lparr>price = 0, totalCost = 0, fee = 0, netCost = 0, pricePerToken = 0,
                  marketCap = cap\<rparr>))
   \<and> (- (2 ^ 53) < n \<and> n \<le> 0 \<and> s + n \<le> 0 \<longrightarrow>
      calculateBuyPrice fm s n basePrice =
        Inr \<lparr>price = 0, totalCost = 0, fee = 0, netCost = 0, pricePerToken = 0,
             marketCap = 0\<rparr>)
   \<and> (- (2 ^ 53) < n \<and> n \<le> 0 \<and> 0 < s + n \<and> s + n < 2 ^ 53 \<and> \<bar>fm (s + n)\<bar> < 2 ^ 53 \<longrightarrow>
      calculateBuyPrice fm s n basePrice =
        Inr \<lparr>price = 0, totalCost = 0, fee = 0, netCost = 0, pricePerToken = 0,
             marketCap = max ((basePrice * fm (s + n)) sdiv 1000) MIN_PRICE * (s + n)\<rparr>)
   \<and> (- (2 ^ 53) < n \<and> n \<le> 0 \<and> 0 < s + n
        \<and> \<not> (s + n < 2 ^ 53 \<and> \<bar>fm (s + n)\<bar> < 2 ^ 53) \<longrightarrow>
      (\<exists>e. calculateBuyPrice fm s n basePrice = Inl e))
   \<and> (n \<le> 0 \<longrightarrow>
      validateTrade fm s n True maxSlippage =
        Inr \<lparr>isValid = False, error = Some Amount_must_be_greater_than_0\<rparr>)
   \<and> (0 < n \<and> MAX_SUPPLY < s + n \<longrightarrow>
      validateTrade fm s n True maxSlippage =
        Inr \<lparr>isValid = False, error = Some Exceeds_maximum_supply\<rparr>)"
proof (intro conjI impI)
  assume "- (2 ^ 53) < n \<and> n \<le> 0"
  then show "calculateBuyPrice fm s n basePrice =
        (case calculateMarketCap fm (s + n) basePrice of
           Inl e \<Rightarrow> Inl e
         | Inr cap \<Rightarrow>
             Inr \<lparr>price = 0, totalCost = 0, fee = 0, netCost = 0, pricePerToken = 0,
                  marketCap = cap\<rparr>)"
    by (simp add: calculateBuyPrice_no_units)
next
  assume "- (2 ^ 53) < n \<and> n \<le> 0 \<and> s + n \<le> 0"
  then show "calculateBuyPrice fm s n basePrice =
        Inr \<lparr>price = 0, totalCost = 0, fee = 0, netCost = 0, pricePerToken = 0,
             marketCap = 0\<rparr>"
    by (simp add: calculateBuyPrice_no_units calculateMarketCap_def)
next
  assume "- (2 ^ 53) < n \<and> n \<le> 0 \<and> 0 < s + n \<and> s + n < 2 ^ 53 \<and> \<bar>fm (s + n)\<bar> < 2 ^ 53"
  then show "calculateBuyPrice fm s n basePrice =
        Inr \<lparr>price = 0, totalCost = 0, fee = 0, netCost = 0, pricePerToken = 0,
             marketCap = max ((basePrice * fm (s + n)) sdiv 1000) MIN_PRICE * (s + n)\<rparr>"
    by (simp add: calculateBuyPrice_no_units calculateMarketCap_def
        calculatePriceAtSupply_safe)
next
  assume a: "- (2 ^ 53) < n \<and> n \<le> 0 \<and> 0 < s + n
        \<and> \<not> (s + n < 2 ^ 53 \<and> \<bar>fm (s + n)\<bar> < 2 ^ 53)"
  then obtain e where "calculateMarketCap fm (s + n) basePrice = Inl e"
    using calculateMarketCap_fails [of "s + n" fm basePrice] by blast
  with a show "\<exists>e. calculateBuyPrice fm s n basePrice = Inl e"
    by (simp add: calculateBuyPrice_no_units)
next
  assume "n \<le> 0"
  then show "validateTrade fm s n True maxSlippage =
        Inr \<lparr>isValid = False, error = Some Amount_must_be_greater_than_0\<rparr>"
    by (simp add: validateTrade_def)
next
  assume "0 < n \<and> MAX_SUPPLY < s + n"
  then show "validateTrade fm s n True maxSlippage =
        Inr \<lparr>isValid = False, error = Some Exceeds_maximum_supply\<rparr>"
    by (simp add: validateTrade_def)
qed

text \<open>
  The hypotheses of the amended C3 hold under the exact multiplier: for the amount
  \<open>- 2\<close> at supply 5 (the market cap at supply 3 is computed), for the amount 0 at supply
  0, for the amount 0 at supply 1000 (the multiplier at 1000 is \<open>2 ^ 53\<close> or more, and
  the call throws), and for the amount 2 at supply 999_999.
\<close>

theorem calculateBuyPrice_unchecked_witness:
  "- (2 ^ 53) < (- 2 :: int) \<and> (- 2 :: int) \<le> 0 \<and> (0::int) < 5 + - 2 \<and> (5::int) + - 2 < 2 ^ 53
   \<and> \<bar>exact_multiplier (5 + - 2)\<bar> < 2 ^ 53
   \<and> calculateBuyPrice exact_multiplier 5 (- 2) BASE_PRICE =
       Inr \<lparr>price = 0, totalCost = 0, fee = 0, netCost = 0, pricePerToken = 0,
            marketCap = 3993000\<rparr>
   \<and> calculateBuyPrice exact_multiplier 0 0 BASE_PRICE =
       Inr \<lparr>price = 0, totalCost = 0, fee = 0, netCost = 0, pricePerToken = 0,
            marketCap = 0\<rparr>
   \<and> (0::int) < 1000 + 0 \<and> 2 ^ 53 \<le> exact_multiplier (1000 + 0)
   \<and> (\<exists>e. calculateBuyPrice exact_multiplier 1000 0 BASE_PRICE = Inl e)
   \<and> validateTrade exact_multiplier 5 (- 2) True 5 =
       Inr \<lparr>isValid = False, error = Some Amount_must_be_greater_than_0\<rparr>
   \<and> (0::int) < 2 \<and> MAX_SUPPLY < 999999 + 2
   \<and> validateTrade exact_multiplier 999999 2 True 5 =
       Inr \<lparr>isValid = False, error = Some Exceeds_maximum_supply\<rparr>"
proof -
  have safe: "\<bar>exact_multiplier (5 + - 2)\<bar> < 2 ^ 53"
    and val: "max ((BASE_PRICE * exact_multiplier (5 + - 2)) sdiv 1000) MIN_PRICE * (5 + - 2)
                = 3993000"
    by (simp_all add: exact_multiplier_values MIN_PRICE_def BASE_PRICE_def
        signed_divide_int_def)
  have large: "2 ^ 53 \<le> exact_multiplier (1000 + 0)"
    by (rule exact_multiplier_large) simp
  have cap': "MAX_SUPPLY < 999999 + 2"
    by (simp add: MAX_SUPPLY_def)
  have h1: "- (2 ^ 53) < (- 2 :: int) \<and> (- 2 :: int) \<le> 0 \<and> (0::int) < 5 + - 2
      \<and> (5::int) + - 2 < 2 ^ 53 \<and> \<bar>exact_multiplier (5 + - 2)\<bar> < 2 ^ 53"
    using safe by simp
  have h2: "- (2 ^ 53) < (0::int) \<and> (0::int) \<le> 0 \<and> (0::int) + 0 \<le> 0"
    by simp
  have h3: "- (2 ^ 53) < (0::int) \<and> (0::int) \<le> 0 \<and> (0::int) < 1000 + 0
      \<and> \<not> ((1000::int) + 0 < 2 ^ 53 \<and> \<bar>exact_multiplier (1000 + 0)\<bar> < 2 ^ 53)"
    using large by simp
  have h4: "(- 2 :: int) \<le> 0"
    by simp
  have h5: "(0::int) < 2 \<and> MAX_SUPPLY < 999999 + 2"
    using cap' by simp
  from calculateBuyPrice_unchecked [where n = "- 2" and fm = exact_multiplier and s = 5
      and basePrice = BASE_PRICE and maxSlippage = 5] h1 h4
  have "calculateBuyPrice exact_multiplier 5 (- 2) BASE_PRICE =
       Inr \<lparr>price = 0, totalCost = 0, fee = 0, netCost = 0, pricePerToken = 0,
            marketCap = max ((BASE_PRICE * exact_multiplier (5 + - 2)) sdiv 1000) MIN_PRICE
              * (5 + - 2)\<rparr>"
    and v: "validateTrade exact_multiplier 5 (- 2) True 5 =
       Inr \<lparr>isValid = False, error = Some Amount_must_be_greater_than_0\<rparr>"
    by blast+
  then have a: "calculateBuyPrice exact_multiplier 5 (- 2) BASE_PRICE =
       Inr \<lparr>price = 0, totalCost = 0, fee = 0, netCost = 0, pricePerToken = 0,
            marketCap = 3993000\<rparr>"
    by (simp only: val)
  from calculateBuyPrice_unchecked [where n = 0 and fm = exact_multiplier and s = 0
      and basePrice = BASE_PRICE] h2
  have b: "calculateBuyPrice exact_multiplier 0 0 BASE_PRICE =
       Inr \<lparr>price = 0, totalCost = 0, fee = 0, netCost = 0, pricePerToken = 0,
            marketCap = 0\<rparr>"
    by blast
  from calculateBuyPrice_unchecked [where n = 0 and fm = exact_multiplier and s = 1000
      and basePrice = BASE_PRICE] h3
  have c: "\<exists>e. calculateBuyPrice exact_multiplier 1000 0 BASE_PRICE = Inl e"
    by blast
  from calculateBuyPrice_unchecked [where n = 2 and fm = exact_multiplier and s = 999999
      and maxSlippage = 5] h5
  have d: "validateTrade exact_multiplier 999999 2 True 5 =
       Inr \<lparr>isValid = False, error = Some Exceeds_maximum_supply\<rparr>"
    by blast
  from a b c d v safe large cap' show ?thesis by simp
qed

text \<open>
  C6 as stated fails: \<^verbatim>\<open>calculateSellPrice(0, 1)\<close>, a sale of more than the supply, throws
  an \<^verbatim>\<open>Error\<close>; it does not return a result value.
\<close>

theorem expected_failures_counterexample:
  "calculateSellPrice exact_multiplier 0 1 BASE_PRICE =
     Inl (Error ''Cannot sell more tokens than current supply'')"
  by (simp add: calculateSellPrice_def)

text \<open>
  C6, amended. \<^verbatim>\<open>validateTrade\<close> returns each expected failure as a result value with
  \<^verbatim>\<open>isValid\<close> false and a message: an amount that is not positive, a buy beyond
  \<^verbatim>\<open>MAX_SUPPLY\<close>, a sale of more than the supply, and a price impact (once computed) above
  the slippage bound. \<^verbatim>\<open>calculateSellPrice\<close>, asked to sell more than the supply, throws
  \<^verbatim>\<open>Error('Cannot sell more tokens than current supply')\<close>.
\<close>

theorem expected_failures:
  "(n \<le> 0 \<longrightarrow>
      validateTrade fm s n isBuy maxSlippage =
        Inr \<lparr>isValid = False, error = Some Amount_must_be_greater_than_0\<rparr>)
   \<and> (0 < n \<and> MAX_SUPPLY < s + n \<longrightarrow>
      validateTrade fm s n True maxSlippage =
        Inr \<lparr>isValid = False, error = Some Exceeds_maximum_supply\<rparr>)
   \<and> (0 < n \<and> s < n \<longrightarrow>
      validateTrade fm s n False maxSlippage =
        Inr \<lparr>isValid = False, error = Some Cannot_sell_more_than_current_supply\<rparr>)
   \<and> (0 < n \<and> (if isBuy then s + n \<le> MAX_SUPPLY else n \<le> s)
        \<and> calculatePriceImpact fm s n isBuy BASE_PRICE = Inr impact \<and> maxSlippage < impact \<longrightarrow>
      validateTrade fm s n isBuy maxSlippage =
        Inr \<lparr>isValid = False,
             error = Some (Price_impact_exceeds_maximum_slippage impact maxSlippage)\<rparr>)
   \<and> (s < n \<longrightarrow>
      calculateSellPrice fm s n basePrice =
        Inl (Error ''Cannot sell more tokens than current supply''))"
  by (simp add: validateTrade_def calculateSellPrice_def)

lemma impact_sell_1_1:
  "calculatePriceImpact exact_multiplier 1 1 False BASE_PRICE = Inr (909 / 100)"
  by (simp add: calculatePriceImpact_def toNumber_def calculatePriceAtSupply_def BN_div_def
      new_BN_def exact_multiplier_values MIN_PRICE_def signed_divide_int_def BASE_PRICE_def)

text \<open>
  Each hypothesis of the amended C6 holds at an input: the amount 0; a buy of 1 at
  \<^verbatim>\<open>MAX_SUPPLY\<close>; a sale of 1 at supply 0; a sale of 1 at supply 1 with slippage bound 5
  (the impact is 9.09).
\<close>

theorem expected_failures_witness:
  "validateTrade exact_multiplier 0 0 True 5 =
     Inr \<lparr>isValid = False, error = Some Amount_must_be_greater_than_0\<rparr>
   \<and> (0::int) < 1 \<and> MAX_SUPPLY < MAX_SUPPLY + 1
   \<and> validateTrade exact_multiplier MAX_SUPPLY 1 True 5 =
     Inr \<lparr>isValid = False, error = Some Exceeds_maximum_supply\<rparr>
   \<and> validateTrade exact_multiplier 0 1 False 5 =
     Inr \<lparr>isValid = False, error = Some Cannot_sell_more_than_current_supply\<rparr>
   \<and> calculatePriceImpact exact_multiplier 1 1 False BASE_PRICE = Inr (909 / 100)
   \<and> (5::rat) < 909 / 100
   \<and> validateTrade exact_multiplier 1 1 False 5 =
     Inr \<lparr>isValid = False,
          error = Some (Price_impact_exceeds_maximum_slippage (909 / 100) 5)\<rparr>
   \<and> calculateSellPrice exact_multiplier 0 1 BASE_PRICE =
     Inl (Error ''Cannot sell more tokens than current supply'')"
proof -
  from expected_failures [where n = 0 and fm = exact_multiplier and s = 0 and isBuy = True
      and maxSlippage = 5]
  have a: "validateTrade exact_multiplier 0 0 True 5 =
     Inr \<lparr>isValid = False, error = Some Amount_must_be_greater_than_0\<rparr>"
    by simp
  from expected_failures [where n = 1 and fm = exact_multiplier and s = MAX_SUPPLY
      and maxSlippage = 5]
  have b: "validateTrade exact_multiplier MAX_SUPPLY 1 True 5 =
     Inr \<lparr>isValid = False, error = Some Exceeds_maximum_supply\<rparr>"
    by simp
  from expected_failures [where n = 1 and fm = exact_multiplier and s = 0
      and maxSlippage = 5 and basePrice = BASE_PRICE]
  have c: "validateTrade exact_multiplier 0 1 False 5 =
     Inr \<lparr>isValid = False, error = Some Cannot_sell_more_than_current_supply\<rparr>"
    and e: "calculateSellPrice exact_multiplier 0 1 BASE_PRICE =
     Inl (Error ''Cannot sell more tokens than current supply'')"
    by simp_all
  from expected_failures [where n = 1 and fm = exact_multiplier and s = 1 and isBuy = False
      and maxSlippage = 5 and impact = "909 / 100"]
    impact_sell_1_1
  have d: "validateTrade exact_multiplier 1 1 False 5 =
     Inr \<lparr>isValid = False,
          error = Some (Price_impact_exceeds_maximum_slippage (909 / 100) 5)\<rparr>"
    by simp
  from a b c d e impact_sell_1_1 show ?thesis by simp
qed

subsection \<open>Trade validation\<close>

text \<open>
  C7. Whatever the slippage bound, \<^verbatim>\<open>validateTrade(MAX_SUPPLY, 1, true, _)\<close> is invalid with
  the message \<^verbatim>\<open>Exceeds maximum supply\<close> and \<^verbatim>\<open>validateTrade(0, 1, false, _)\<close> is invalid
  with \<^verbatim>\<open>Cannot sell more than current supply\<close>; so is the scenario
  \<^verbatim>\<open>validateTrade(999_999, 2, true, 5)\<close>. The results do not depend on \<open>fm\<close>: no price is
  computed before the three checks. The amount check comes first: a trade of amount 0 is
  refused for its amount, also above the supply cap and below supply zero.
\<close>

theorem validateTrade_boundary:
  "validateTrade fm MAX_SUPPLY 1 True maxSlippage
     = Inr \<lparr>isValid = False, error = Some Exceeds_maximum_supply\<rparr>
   \<and> validateTrade fm 0 1 False maxSlippage
     = Inr \<lparr>isValid = False, error = Some Cannot_sell_more_than_current_supply\<rparr>
   \<and> validateTrade fm 999999 2 True 5
     = Inr \<lparr>isValid = False, error = Some Exceeds_maximum_supply\<rparr>
   \<and> validateTrade fm (MAX_SUPPLY + 1) 0 True maxSlippage
     = Inr \<lparr>isValid = False, error = Some Amount_must_be_greater_than_0\<rparr>
   \<and> validateTrade fm (- 1) 0 False maxSlippage
     = Inr \<lparr>isValid = False, error = Some Amount_must_be_greater_than_0\<rparr>"
  by (simp add: validateTrade_def MAX_SUPPLY_def)

subsection \<open>The binary search\<close>

lemma mid_between:
  fixes low high :: int
  assumes "low \<le> high"
  shows "low \<le> (low + high) sdiv 2" and "(low + high) sdiv 2 \<le> high"
  using assms by (auto simp: signed_divide_int_def sgn_if abs_if)

lemma search_done: "\<not> low \<le> high \<Longrightarrow> search fm s m b bp low high opt = Inr opt"
  by (simp add: search.simps)

lemma search_step:
  assumes "low \<le> high" and "search fm s m b bp low high opt = Inr r"
  shows "\<exists>impact. calculatePriceImpact fm s ((low + high) sdiv 2) b bp = Inr impact
    \<and> (impact \<le> m \<longrightarrow>
           search fm s m b bp ((low + high) sdiv 2 + 1) high ((low + high) sdiv 2) = Inr r)
    \<and> (\<not> impact \<le> m \<longrightarrow>
           search fm s m b bp low ((low + high) sdiv 2 - 1) opt = Inr r)"
  using assms
  by (auto simp: search.simps [of fm s m b bp low high opt] Let_def
      split: sum.splits if_splits)

lemma search_ge_1:
  "search fm s m b bp low high opt = Inr r \<Longrightarrow> 1 \<le> low \<Longrightarrow> 1 \<le> opt \<Longrightarrow> 1 \<le> r"
proof (induction fm s m b bp low high opt rule: search.induct)
  case (1 fm s m b bp low high opt)
  show ?case
  proof (cases "low \<le> high")
    case False
    with "1.prems" show ?thesis by (simp add: search_done)
  next
    case True
    from search_step [OF True "1.prems"(1)] obtain impact where
      imp: "calculatePriceImpact fm s ((low + high) sdiv 2) b bp = Inr impact"
      and up: "impact \<le> m \<Longrightarrow>
           search fm s m b bp ((low + high) sdiv 2 + 1) high ((low + high) sdiv 2) = Inr r"
      and down: "\<not> impact \<le> m \<Longrightarrow>
           search fm s m b bp low ((low + high) sdiv 2 - 1) opt = Inr r"
      by blast
    from mid_between(1) [OF True] "1.prems"(2) have mid: "1 \<le> (low + high) sdiv 2"
      by simp
    show ?thesis
    proof (cases "impact \<le> m")
      case le: True
      from "1.IH"(1) [OF True refl imp le up [OF le]] mid show ?thesis by simp
    next
      case gt: False
      from "1.IH"(2) [OF True refl imp gt down [OF gt]] "1.prems" show ?thesis by simp
    qed
  qed
qed

lemma search_none:
  "\<forall>a\<in>{low..high}. \<exists>v. calculatePriceImpact fm s a b bp = Inr v \<and> m < v \<Longrightarrow>
     search fm s m b bp low high opt = Inr opt"
proof (induction fm s m b bp low high opt rule: search.induct)
  case (1 fm s m b bp low high opt)
  show ?case
  proof (cases "low \<le> high")
    case False
    then show ?thesis by (simp add: search_done)
  next
    case True
    note mid = mid_between [OF True]
    then have "(low + high) sdiv 2 \<in> {low..high}" by simp
    with "1.prems" obtain v where
      v: "calculatePriceImpact fm s ((low + high) sdiv 2) b bp = Inr v" and gt: "\<not> v \<le> m"
      by fastforce
    have "\<forall>a\<in>{low..(low + high) sdiv 2 - 1}.
            \<exists>v. calculatePriceImpact fm s a b bp = Inr v \<and> m < v"
      using "1.prems" mid by simp
    from "1.IH"(2) [OF True refl v gt this]
    have "search fm s m b bp low ((low + high) sdiv 2 - 1) opt = Inr opt" .
    with True v gt show ?thesis
      by (subst search.simps) (simp add: Let_def)
  qed
qed

lemma search_returns:
  "\<forall>a\<in>{low..high}. \<exists>v. calculatePriceImpact fm s a b bp = Inr v \<Longrightarrow>
     \<exists>r. search fm s m b bp low high opt = Inr r"
proof (induction fm s m b bp low high opt rule: search.induct)
  case (1 fm s m b bp low high opt)
  show ?case
  proof (cases "low \<le> high")
    case False
    then show ?thesis by (simp add: search_done)
  next
    case True
    note mid = mid_between [OF True]
    then have "(low + high) sdiv 2 \<in> {low..high}" by simp
    with "1.prems" obtain v where
      v: "calculatePriceImpact fm s ((low + high) sdiv 2) b bp = Inr v"
      by blast
    show ?thesis
    proof (cases "v \<le> m")
      case le: True
      have "\<forall>a\<in>{(low + high) sdiv 2 + 1..high}. \<exists>v. calculatePriceImpact fm s a b bp = Inr v"
        using "1.prems" mid by simp
      from "1.IH"(1) [OF True refl v le this] True v le show ?thesis
        by (subst search.simps) (simp add: Let_def)
    next
      case gt: False
      have "\<forall>a\<in>{low..(low + high) sdiv 2 - 1}. \<exists>v. calculatePriceImpact fm s a b bp = Inr v"
        using "1.prems" mid by simp
      from "1.IH"(2) [OF True refl v gt this] True v gt show ?thesis
        by (subst search.simps) (simp add: Let_def)
    qed
  qed
qed

lemma search_spec:
  assumes "search fm s m b bp low high opt = Inr r"
    and "1 \<le> low" and "low \<le> high + 1" and "high \<le> B"
    and "low = 1 \<longrightarrow> opt = 1"
    and "1 < low \<longrightarrow>
           opt = low - 1 \<and> (\<exists>v. calculatePriceImpact fm s opt b bp = Inr v \<and> v \<le> m)"
    and "high < B \<longrightarrow> (\<exists>v. calculatePriceImpact fm s (high + 1) b bp = Inr v \<and> m < v)"
  shows "(r = 1 \<and> (B < 1 \<or> (\<exists>v. calculatePriceImpact fm s 1 b bp = Inr v \<and> m < v)))
       \<or> ((\<exists>v. calculatePriceImpact fm s r b bp = Inr v \<and> v \<le> m) \<and> 1 \<le> r \<and> r \<le> B
           \<and> (r < B \<longrightarrow> (\<exists>v. calculatePriceImpact fm s (r + 1) b bp = Inr v \<and> m < v)))"
  using assms
proof (induction fm s m b bp low high opt rule: search.induct)
  case (1 fm s m b bp low high opt)
  show ?case
  proof (cases "low \<le> high")
    case False
    with "1.prems"(1) have r: "r = opt" by (simp add: search_done)
    from False "1.prems"(3) have lh: "low = high + 1" by simp
    show ?thesis
    proof (cases "low = 1")
      case True
      with "1.prems"(5) r have "r = 1" by simp
      moreover from True lh have "high = 0" by simp
      ultimately show ?thesis using "1.prems"(4,7) by (cases "B < 1") auto
    next
      case False
      with "1.prems"(2) have "1 < low" by simp
      with "1.prems"(6) r lh have "r = high"
        and "\<exists>v. calculatePriceImpact fm s r b bp = Inr v \<and> v \<le> m" by auto
      moreover from \<open>1 < low\<close> lh have "1 \<le> high" by simp
      ultimately show ?thesis using "1.prems"(4,7) by auto
    qed
  next
    case True
    from search_step [OF True "1.prems"(1)] obtain impact where
      imp: "calculatePriceImpact fm s ((low + high) sdiv 2) b bp = Inr impact"
      and up: "impact \<le> m \<Longrightarrow>
           search fm s m b bp ((low + high) sdiv 2 + 1) high ((low + high) sdiv 2) = Inr r"
      and down: "\<not> impact \<le> m \<Longrightarrow>
           search fm s m b bp low ((low + high) sdiv 2 - 1) opt = Inr r"
      by blast
    note mid = mid_between [OF True]
    show ?thesis
    proof (cases "impact \<le> m")
      case le: True
      show ?thesis
      proof (rule "1.IH"(1) [OF True refl imp le up [OF le]])
        show "1 \<le> (low + high) sdiv 2 + 1" using mid "1.prems"(2) by simp
        show "(low + high) sdiv 2 + 1 \<le> high + 1" using mid by simp
        show "high \<le> B" by (rule "1.prems"(4))
        show "(low + high) sdiv 2 + 1 = 1 \<longrightarrow> (low + high) sdiv 2 = 1"
          using mid "1.prems"(2) by simp
        show "1 < (low + high) sdiv 2 + 1 \<longrightarrow>
           (low + high) sdiv 2 = (low + high) sdiv 2 + 1 - 1 \<and>
           (\<exists>v. calculatePriceImpact fm s ((low + high) sdiv 2) b bp = Inr v \<and> v \<le> m)"
          using imp le by simp
        show "high < B \<longrightarrow> (\<exists>v. calculatePriceImpact fm s (high + 1) b bp = Inr v \<and> m < v)"
          by (rule "1.prems"(7))
      qed
    next
      case gt: False
      show ?thesis
      proof (rule "1.IH"(2) [OF True refl imp gt down [OF gt]])
        show "1 \<le> low" by (rule "1.prems"(2))
        show "low \<le> (low + high) sdiv 2 - 1 + 1" using mid by simp
        show "(low + high) sdiv 2 - 1 \<le> B" using mid "1.prems"(4) by simp
        show "low = 1 \<longrightarrow> opt = 1" by (rule "1.prems"(5))
        show "1 < low \<longrightarrow>
           opt = low - 1 \<and> (\<exists>v. calculatePriceImpact fm s opt b bp = Inr v \<and> v \<le> m)"
          by (rule "1.prems"(6))
        show "(low + high) sdiv 2 - 1 < B \<longrightarrow>
           (\<exists>v. calculatePriceImpact fm s ((low + high) sdiv 2 - 1 + 1) b bp = Inr v \<and> m < v)"
          using imp gt by simp
      qed
    qed
  qed
qed

lemma impact_sell_5:
  "calculatePriceImpact exact_multiplier 5 1 False BASE_PRICE = Inr (453 / 50)"
  "calculatePriceImpact exact_multiplier 5 2 False BASE_PRICE = Inr (433 / 25)"
  "calculatePriceImpact exact_multiplier 5 3 False BASE_PRICE = Inr (621 / 25)"
  "calculatePriceImpact exact_multiplier 5 4 False BASE_PRICE = Inr (3167 / 100)"
  "calculatePriceImpact exact_multiplier 5 5 False BASE_PRICE = Inr (947 / 25)"
  by (simp_all add: calculatePriceImpact_def toNumber_def calculatePriceAtSupply_def BN_div_def
      new_BN_def exact_multiplier_values MIN_PRICE_def signed_divide_int_def BASE_PRICE_def)

lemma optimal_sell_5_30:
  "calculateOptimalTradeSize exact_multiplier 5 30 False BASE_PRICE = Inr 3"
  by (simp add: calculateOptimalTradeSize_def search.simps impact_sell_5
      signed_divide_int_def)

lemma optimal_sell_1_5:
  "calculateOptimalTradeSize exact_multiplier 1 5 False BASE_PRICE = Inr 1"
  by (simp add: calculateOptimalTradeSize_def search.simps impact_sell_1_1
      signed_divide_int_def)

text \<open>
  C9 as stated fails: for a sale at supply 1 with maximum impact 5 the search returns the
  initial candidate 1, and the price impact of selling 1 unit is 9.09, above the maximum.
\<close>

theorem optimal_size_counterexample:
  "calculateOptimalTradeSize exact_multiplier 1 5 False BASE_PRICE = Inr 1
   \<and> calculatePriceImpact exact_multiplier 1 1 False BASE_PRICE = Inr (909 / 100)
   \<and> \<not> 909 / 100 \<le> (5::rat)"
  by (simp add: optimal_sell_1_5 impact_sell_1_1)

text \<open>
  C9, amended. An amount \<open>r\<close> that \<^verbatim>\<open>calculateOptimalTradeSize\<close> returns is either
  admissible, within the search bound (\<open>MAX_SUPPLY - s\<close> for a buy, \<open>s\<close> for a sale) and
  maximal there, in that the impact of \<open>r + 1\<close>, if within the bound, exceeds the
  maximum; or it is the initial candidate 1, returned because the bound is empty or
  because the impact of 1 unit exceeds the maximum.
\<close>

theorem optimal_size_bound:
  assumes "calculateOptimalTradeSize fm s m isBuy basePrice = Inr r"
  shows "(r = 1 \<and> ((if isBuy then MAX_SUPPLY - s else s) < 1
                 \<or> (\<exists>v. calculatePriceImpact fm s 1 isBuy basePrice = Inr v \<and> m < v)))
     \<or> ((\<exists>v. calculatePriceImpact fm s r isBuy basePrice = Inr v \<and> v \<le> m)
         \<and> 1 \<le> r \<and> r \<le> (if isBuy then MAX_SUPPLY - s else s)
         \<and> (r + 1 \<le> (if isBuy then MAX_SUPPLY - s else s) \<longrightarrow>
              (\<exists>v. calculatePriceImpact fm s (r + 1) isBuy basePrice = Inr v \<and> m < v)))"
proof (cases "(if isBuy then MAX_SUPPLY - s else s) < 1")
  case True
  with assms have "r = 1"
    by (simp add: calculateOptimalTradeSize_def search_done)
  with True show ?thesis by simp
next
  case False
  from assms have
    "search fm s m isBuy basePrice 1 (if isBuy then MAX_SUPPLY - s else s) 1 = Inr r"
    by (simp add: calculateOptimalTradeSize_def)
  from search_spec [OF this, of "if isBuy then MAX_SUPPLY - s else s"] False
  show ?thesis by auto
qed

text \<open>
  For a sale at supply 5 with maximum 30 the search returns 3: the impact of 3 units is
  24.84, that of 4 units 31.67.
\<close>

theorem optimal_size_bound_witness:
  "calculateOptimalTradeSize exact_multiplier 5 30 False BASE_PRICE = Inr 3
   \<and> (\<exists>v. calculatePriceImpact exact_multiplier 5 3 False BASE_PRICE = Inr v \<and> v \<le> 30)
   \<and> (3::int) + 1 \<le> 5
   \<and> (\<exists>v. calculatePriceImpact exact_multiplier 5 (3 + 1) False BASE_PRICE = Inr v \<and> 30 < v)"
  using optimal_size_bound [OF optimal_sell_5_30] optimal_sell_5_30 by simp

text \<open>
  The price impact does not fall as the amount grows, while the current price is positive.
\<close>

lemma price_positive:
  assumes "calculatePriceAtSupply fm s bp = Inr p" and "0 < s \<or> 0 < bp"
  shows "0 < p"
proof (cases "0 < s")
  case True
  with assms(1) have "p = max ((bp * fm s) sdiv 1000) MIN_PRICE"
    by (simp add: calculatePriceAtSupply_high(1))
  then show ?thesis by (simp add: MIN_PRICE_def)
next
  case False
  with assms show ?thesis by (simp add: calculatePriceAtSupply_low)
qed

lemma impact_value:
  assumes "calculatePriceImpact fm s a isBuy bp = Inr v"
  obtains cp np where "calculatePriceAtSupply fm s bp = Inr cp"
    and "calculatePriceAtSupply fm (if isBuy then s + a else s - a) bp = Inr np"
    and "cp \<noteq> 0"
    and "v = min (of_int ((\<bar>np - cp\<bar> * 10000) sdiv cp) / 100) 100"
  using assms
  by (auto simp: calculatePriceImpact_def BN_div_def Let_def dest!: toNumber_Inr
      split: sum.splits if_splits)

lemma impact_mono:
  assumes ge: "\<And>k. 0 < k \<Longrightarrow> 1000 \<le> fm k"
    and mono: "\<And>k. 0 < k \<Longrightarrow> fm k \<le> fm (k + 1)"
    and pos: "0 < s \<or> 0 < bp"
    and a: "0 \<le> a" "a \<le> a'"
    and v: "calculatePriceImpact fm s a isBuy bp = Inr v"
    and v': "calculatePriceImpact fm s a' isBuy bp = Inr v'"
  shows "v \<le> v'"
proof -
  from v obtain cp np where cp: "calculatePriceAtSupply fm s bp = Inr cp"
    and np: "calculatePriceAtSupply fm (if isBuy then s + a else s - a) bp = Inr np"
    and veq: "v = min (of_int ((\<bar>np - cp\<bar> * 10000) sdiv cp) / 100) 100"
    by (rule impact_value)
  from v' cp obtain np' where
    np': "calculatePriceAtSupply fm (if isBuy then s + a' else s - a') bp = Inr np'"
    and veq': "v' = min (of_int ((\<bar>np' - cp\<bar> * 10000) sdiv cp) / 100) 100"
    by (auto elim!: impact_value)
  from cp pos have cpos: "0 < cp" by (rule price_positive)
  have diff: "\<bar>np - cp\<bar> \<le> \<bar>np' - cp\<bar>"
  proof (cases isBuy)
    case True
    with np np' have n: "calculatePriceAtSupply fm (s + a) bp = Inr np"
      and n': "calculatePriceAtSupply fm (s + a') bp = Inr np'" by simp_all
    from a have "s \<le> s + a" and "s + a \<le> s + a'" by simp_all
    from price_le [OF ge mono this(1) cp n] price_le [OF ge mono this(2) n n']
    show ?thesis by simp
  next
    case False
    with np np' have n: "calculatePriceAtSupply fm (s - a) bp = Inr np"
      and n': "calculatePriceAtSupply fm (s - a') bp = Inr np'" by simp_all
    from a have "s - a \<le> s" and "s - a' \<le> s - a" by simp_all
    from price_le [OF ge mono this(1) n cp] price_le [OF ge mono this(2) n' n]
    show ?thesis by simp
  qed
  then have "\<bar>np - cp\<bar> * 10000 \<le> \<bar>np' - cp\<bar> * 10000" by simp
  then have "(\<bar>np - cp\<bar> * 10000) div cp \<le> (\<bar>np' - cp\<bar> * 10000) div cp"
    using cpos by (rule zdiv_mono1)
  moreover have "(x * 10000) sdiv cp = (x * 10000) div cp" if "0 \<le> x" for x
    using that cpos by (simp add: signed_divide_int_def sgn_if)
  ultimately have "(\<bar>np - cp\<bar> * 10000) sdiv cp \<le> (\<bar>np' - cp\<bar> * 10000) sdiv cp"
    by simp
  then have "(of_int ((\<bar>np - cp\<bar> * 10000) sdiv cp) :: rat) / 100
               \<le> of_int ((\<bar>np' - cp\<bar> * 10000) sdiv cp) / 100"
    by (simp add: divide_right_mono)
  then show ?thesis
    unfolding veq veq' by (simp add: min_le_iff_disj)
qed

text \<open>
  C10 as stated fails: the function does not return an amount for every input. A buy at
  supply 0 probes \<open>mid = 500_000\<close> first; the multiplier at supply 500_000 is not a number
  that \<^verbatim>\<open>new BN\<close> accepts, and the assertion of bn.js fails.
\<close>

theorem optimal_size_returns_counterexample:
  "calculateOptimalTradeSize exact_multiplier 0 5 True BASE_PRICE
     = Inl (Error ''Assertion failed'')"
proof -
  have "calculatePriceAtSupply exact_multiplier 500000 BASE_PRICE
          = Inl (Error ''Assertion failed'')"
    by (rule price_unsafe) simp_all
  then have "calculatePriceImpact exact_multiplier 0 500000 True BASE_PRICE
     = Inl (Error ''Assertion failed'')"
    by (simp add: calculatePriceImpact_def calculatePriceAtSupply_low)
  then show ?thesis
    by (simp add: calculateOptimalTradeSize_def MAX_SUPPLY_def signed_divide_int_def
        search.simps [of _ _ _ _ _ 1 1000000])
qed

text \<open>
  C10, amended. An amount that \<^verbatim>\<open>calculateOptimalTradeSize\<close> returns is at least 1. The
  function returns the initial candidate 1 when the search bound is empty, as for a buy
  at \<^verbatim>\<open>MAX_SUPPLY\<close> and a sale at supply 0, and when every amount within the bound exceeds
  the maximum. An amount it returns is 1 when the impact of 1 unit exceeds the maximum,
  the floored multiplier being at least 1000 and non-decreasing and the current price
  positive. The function returns an amount whenever the price impact of every amount
  within the bound is computed.
\<close>

theorem optimal_size_at_least_1:
  "(calculateOptimalTradeSize fm s m isBuy basePrice = Inr r \<longrightarrow> 1 \<le> r)
   \<and> ((if isBuy then MAX_SUPPLY - s else s) < 1 \<longrightarrow>
        calculateOptimalTradeSize fm s m isBuy basePrice = Inr 1)
   \<and> ((\<forall>a\<in>{1..(if isBuy then MAX_SUPPLY - s else s)}.
          \<exists>v. calculatePriceImpact fm s a isBuy basePrice = Inr v \<and> m < v) \<longrightarrow>
        calculateOptimalTradeSize fm s m isBuy basePrice = Inr 1)
   \<and> ((\<forall>k>0. 1000 \<le> fm k) \<and> (\<forall>k>0. fm k \<le> fm (k + 1)) \<and> (0 < s \<or> 0 < basePrice)
        \<and> calculateOptimalTradeSize fm s m isBuy basePrice = Inr r
        \<and> calculatePriceImpact fm s 1 isBuy basePrice = Inr v1 \<and> m < v1 \<longrightarrow>
        r = 1)
   \<and> ((\<forall>a\<in>{1..(if isBuy then MAX_SUPPLY - s else s)}.
          \<exists>v. calculatePriceImpact fm s a isBuy basePrice = Inr v) \<longrightarrow>
        (\<exists>r0. calculateOptimalTradeSize fm s m isBuy basePrice = Inr r0 \<and> 1 \<le> r0))
   \<and> calculateOptimalTradeSize fm MAX_SUPPLY m True basePrice = Inr 1
   \<and> calculateOptimalTradeSize fm 0 m False basePrice = Inr 1"
proof (intro conjI impI)
  assume "calculateOptimalTradeSize fm s m isBuy basePrice = Inr r"
  then show "1 \<le> r"
    unfolding calculateOptimalTradeSize_def by (rule search_ge_1) simp_all
next
  assume "(if isBuy then MAX_SUPPLY - s else s) < 1"
  then show "calculateOptimalTradeSize fm s m isBuy basePrice = Inr 1"
    by (simp add: calculateOptimalTradeSize_def search_done)
next
  assume "\<forall>a\<in>{1..(if isBuy then MAX_SUPPLY - s else s)}.
          \<exists>v. calculatePriceImpact fm s a isBuy basePrice = Inr v \<and> m < v"
  then show "calculateOptimalTradeSize fm s m isBuy basePrice = Inr 1"
    unfolding calculateOptimalTradeSize_def by (rule search_none)
next
  assume a: "(\<forall>k>0. 1000 \<le> fm k) \<and> (\<forall>k>0. fm k \<le> fm (k + 1)) \<and> (0 < s \<or> 0 < basePrice)
        \<and> calculateOptimalTradeSize fm s m isBuy basePrice = Inr r
        \<and> calculatePriceImpact fm s 1 isBuy basePrice = Inr v1 \<and> m < v1"
  then have ge: "\<And>k. 0 < k \<Longrightarrow> 1000 \<le> fm k"
    and mono: "\<And>k. 0 < k \<Longrightarrow> fm k \<le> fm (k + 1)"
    and pos: "0 < s \<or> 0 < basePrice"
    and v1: "calculatePriceImpact fm s 1 isBuy basePrice = Inr v1"
    by simp_all
  show "r = 1"
  proof (cases "(if isBuy then MAX_SUPPLY - s else s) < 1")
    case True
    with a show ?thesis
      by (simp add: calculateOptimalTradeSize_def search_done)
  next
    case False
    from a have
      "search fm s m isBuy basePrice 1 (if isBuy then MAX_SUPPLY - s else s) 1 = Inr r"
      by (simp add: calculateOptimalTradeSize_def)
    from search_spec [OF this, of "if isBuy then MAX_SUPPLY - s else s"] False
    have "r = 1 \<or> (\<exists>v. calculatePriceImpact fm s r isBuy basePrice = Inr v \<and> v \<le> m) \<and> 1 \<le> r"
      by auto
    then show ?thesis
    proof
      assume "(\<exists>v. calculatePriceImpact fm s r isBuy basePrice = Inr v \<and> v \<le> m) \<and> 1 \<le> r"
      then obtain v where v: "calculatePriceImpact fm s r isBuy basePrice = Inr v"
        and "v \<le> m" and r: "1 \<le> r" by blast
      have "(0::int) \<le> 1" by simp
      from impact_mono [OF ge mono pos this r v1 v] have "v1 \<le> v" .
      with \<open>v \<le> m\<close> a show ?thesis by simp
    qed
  qed
next
  assume "\<forall>a\<in>{1..(if isBuy then MAX_SUPPLY - s else s)}.
          \<exists>v. calculatePriceImpact fm s a isBuy basePrice = Inr v"
  then obtain r0 where
    r0: "search fm s m isBuy basePrice 1 (if isBuy then MAX_SUPPLY - s else s) 1 = Inr r0"
    using search_returns by blast
  then have "1 \<le> r0" by (rule search_ge_1) simp_all
  with r0 show "\<exists>r0. calculateOptimalTradeSize fm s m isBuy basePrice = Inr r0 \<and> 1 \<le> r0"
    by (simp add: calculateOptimalTradeSize_def)
next
  show "calculateOptimalTradeSize fm MAX_SUPPLY m True basePrice = Inr 1"
    by (simp add: calculateOptimalTradeSize_def search_done)
next
  show "calculateOptimalTradeSize fm 0 m False basePrice = Inr 1"
    by (simp add: calculateOptimalTradeSize_def search_done)
qed

text \<open>
  The hypotheses of the amended C10 hold for sales at supply 5 (maximum 30, result 3), at
  supply 0 (empty bound) and at supply 1 (maximum 5; the one amount within the bound, 1
  unit, exceeds it), under the exact multiplier, which is at least 1000 and
  non-decreasing.
\<close>

theorem optimal_size_at_least_1_witness:
  "calculateOptimalTradeSize exact_multiplier 5 30 False BASE_PRICE = Inr 3 \<and> (1::int) \<le> 3
   \<and> (if False then MAX_SUPPLY - 0 else (0::int)) < 1
   \<and> calculateOptimalTradeSize exact_multiplier 0 5 False BASE_PRICE = Inr 1
   \<and> {1..(if False then MAX_SUPPLY - 1 else 1)} = {1}
   \<and> (\<forall>k. 1000 \<le> exact_multiplier k) \<and> (\<forall>k. exact_multiplier k \<le> exact_multiplier (k + 1))
   \<and> calculatePriceImpact exact_multiplier 1 1 False BASE_PRICE = Inr (909 / 100)
   \<and> (5::rat) < 909 / 100
   \<and> calculateOptimalTradeSize exact_multiplier 1 5 False BASE_PRICE = Inr 1
   \<and> calculatePriceImpact exact_multiplier 5 1 False BASE_PRICE = Inr (453 / 50)
   \<and> calculatePriceImpact exact_multiplier 5 2 False BASE_PRICE = Inr (433 / 25)
   \<and> calculatePriceImpact exact_multiplier 5 3 False BASE_PRICE = Inr (621 / 25)
   \<and> calculatePriceImpact exact_multiplier 5 4 False BASE_PRICE = Inr (3167 / 100)
   \<and> calculatePriceImpact exact_multiplier 5 5 False BASE_PRICE = Inr (947 / 25)
   \<and> (\<exists>r0. calculateOptimalTradeSize exact_multiplier 5 30 False BASE_PRICE = Inr r0 \<and> 1 \<le> r0)"
proof -
  have all5: "\<forall>a\<in>{1..(if False then MAX_SUPPLY - 5 else 5)}.
          \<exists>v. calculatePriceImpact exact_multiplier 5 a False BASE_PRICE = Inr v"
  proof
    fix a :: int
    assume "a \<in> {1..(if False then MAX_SUPPLY - 5 else 5)}"
    then have "a = 1 \<or> a = 2 \<or> a = 3 \<or> a = 4 \<or> a = 5" by auto
    then show "\<exists>v. calculatePriceImpact exact_multiplier 5 a False BASE_PRICE = Inr v"
      using impact_sell_5 by blast
  qed
  from optimal_size_at_least_1 [where fm = exact_multiplier and s = 5 and m = 30
      and isBuy = False and basePrice = BASE_PRICE] all5
  have e: "\<exists>r0. calculateOptimalTradeSize exact_multiplier 5 30 False BASE_PRICE = Inr r0
      \<and> 1 \<le> r0"
    by blast
  have all: "\<forall>a\<in>{1..(if False then MAX_SUPPLY - 1 else 1)}.
          \<exists>v. calculatePriceImpact exact_multiplier 1 a False BASE_PRICE = Inr v \<and> 5 < v"
  proof
    fix a :: int
    assume "a \<in> {1..(if False then MAX_SUPPLY - 1 else 1)}"
    then have "a = 1" by simp
    then show "\<exists>v. calculatePriceImpact exact_multiplier 1 a False BASE_PRICE = Inr v \<and> 5 < v"
      using impact_sell_1_1 by (intro exI [of _ "909 / 100"]) simp
  qed
  have fm: "\<forall>k. 1000 \<le> exact_multiplier k"
    "\<forall>k. exact_multiplier k \<le> exact_multiplier (k + 1)"
    by (simp_all add: exact_multiplier_ge exact_multiplier_mono)
  from optimal_size_at_least_1 [where fm = exact_multiplier and s = 5 and m = 30
      and isBuy = False and basePrice = BASE_PRICE and r = 3] optimal_sell_5_30
  have a: "(1::int) \<le> 3" by simp
  from optimal_size_at_least_1 [where fm = exact_multiplier and s = 0 and m = 5
      and isBuy = False and basePrice = BASE_PRICE]
  have b: "calculateOptimalTradeSize exact_multiplier 0 5 False BASE_PRICE = Inr 1" by simp
  from optimal_size_at_least_1 [where fm = exact_multiplier and s = 1 and m = 5
      and isBuy = False and basePrice = BASE_PRICE] all
  have c: "calculateOptimalTradeSize exact_multiplier 1 5 False BASE_PRICE = Inr 1" by blast
  from a b c e fm optimal_sell_5_30 impact_sell_1_1 impact_sell_5 show ?thesis by simp
qed

end
